theory Spec2Isabelle
  imports Main "HOL-Library.AList"
begin

section \<open>Tasks and dates\<close>

text \<open>
  A time value is an integer number of milliseconds since the epoch. The time value of a
  JavaScript \<open>Date\<close> object is a time value or \<open>NaN\<close> (an Invalid Date), which is
  \<open>None\<close> in \<open>timeValue\<close>. A \<open>dueDate\<close> that is \<open>null\<close> is \<open>None\<close>.
\<close>

type_synonym date = int

type_synonym timeValue = "int option"

record Repeating =
  mo :: bool
  tu :: bool
  we :: bool
  th :: bool
  fr :: bool
  sa :: bool
  su :: bool

text \<open>
  The object built by \<open>generateTask\<close> (it has no id). \<open>descriptions[i]\<close> and
  \<open>COLORS[i]\<close> are \<open>undefined\<close> out of range, which is \<open>None\<close> here. The type of
  the due date is a parameter: the generator builds \<open>Date\<close> objects, whose time value may
  be \<open>NaN\<close>.
\<close>

record 'd MockTask =
  description :: "string option"
  dueDate :: "'d option"
  repeating :: Repeating
  color :: "string option"
  isArchive :: bool
  isFavorite :: bool

text \<open>
  A task of the collection: the same fields and the id assigned by the server. Its due
  date, when it has one, is a valid date.
\<close>

record Task = "date MockTask" +
  task_id :: nat

subsection \<open>The clock and local time\<close>

text \<open>
  \<open>new Date()\<close> reads the clock, and \<open>setHours\<close>, \<open>getDate\<close> and \<open>setDate\<close> work in
  local time. The clock and the time zone are inputs of the model: \<open>now\<close> is the time
  value read, and \<open>LocalTZA t isUTC\<close> is the offset of local time in milliseconds, as the
  language defines it: at the instant \<open>t\<close> when \<open>isUTC\<close> is true, and for the local time
  \<open>t\<close> when it is false. The offset may change from one instant to another (daylight
  saving). The functions below are the abstract operations of the language with their
  names.
\<close>

record Clock =
  now :: date
  LocalTZA :: "int \<Rightarrow> bool \<Rightarrow> int"

definition msPerDay :: int where
  "msPerDay = 86400000"

definition Day :: "int \<Rightarrow> int" where
  "Day t = t div msPerDay"

definition TimeWithinDay :: "int \<Rightarrow> int" where
  "TimeWithinDay t = t mod msPerDay"

definition MakeTime :: "int \<Rightarrow> int \<Rightarrow> int \<Rightarrow> int \<Rightarrow> int" where
  "MakeTime hour minute sec ms = hour * 3600000 + minute * 60000 + sec * 1000 + ms"

definition MakeDate :: "int \<Rightarrow> int \<Rightarrow> int" where
  "MakeDate day time = day * msPerDay + time"

definition LocalTime :: "Clock \<Rightarrow> int \<Rightarrow> int" where
  "LocalTime clk t = t + LocalTZA clk t True"

definition UTC :: "Clock \<Rightarrow> int \<Rightarrow> int" where
  "UTC clk t = t - LocalTZA clk t False"

text \<open>A time value outside the range of \<open>Date\<close> becomes \<open>NaN\<close>.\<close>

definition TimeClip :: "int \<Rightarrow> timeValue" where
  "TimeClip time = (if \<bar>time\<bar> > 8640000000000000 then None else Some time)"

text \<open>
  \<open>d.setHours(hour, minute, sec, ms)\<close> on a \<open>Date\<close> whose time value is \<open>tv\<close>: the
  new time value of \<open>d\<close>.
\<close>

definition Date_setHours :: "Clock \<Rightarrow> int \<Rightarrow> int \<Rightarrow> int \<Rightarrow> int \<Rightarrow> timeValue \<Rightarrow> timeValue" where
  "Date_setHours clk hour minute sec ms tv =
     (case tv of
        None \<Rightarrow> None
      | Some t0 \<Rightarrow>
          (let t = LocalTime clk t0;
               date = MakeDate (Day t) (MakeTime hour minute sec ms)
           in TimeClip (UTC clk date)))"

text \<open>
  \<open>d.setDate(d.getDate() + daysGap)\<close> on a \<open>Date\<close> whose time value is \<open>tv\<close>.
  \<open>getDate\<close> is the day of the month of the local time \<open>t\<close>, and \<open>setDate\<close> keeps the
  year, the month and the time within the day of \<open>t\<close>; the day number of that year and
  month with the day of the month \<open>getDate() + daysGap\<close> is \<open>Day t + daysGap\<close>.
\<close>

definition Date_setDate_getDate_plus :: "Clock \<Rightarrow> int \<Rightarrow> timeValue \<Rightarrow> timeValue" where
  "Date_setDate_getDate_plus clk daysGap tv =
     (case tv of
        None \<Rightarrow> None
      | Some t0 \<Rightarrow>
          (let t = LocalTime clk t0;
               newDate = MakeDate (Day t + daysGap) (TimeWithinDay t)
           in TimeClip (UTC clk newDate)))"

text \<open>\<open>a > b\<close> and \<open>a === b\<close> on numbers: both are false when a side is \<open>NaN\<close>.\<close>

definition number_gt :: "timeValue \<Rightarrow> timeValue \<Rightarrow> bool" where
  "number_gt a b = (case (a, b) of (Some x, Some y) \<Rightarrow> x > y | _ \<Rightarrow> False)"

definition number_eq :: "timeValue \<Rightarrow> timeValue \<Rightarrow> bool" where
  "number_eq a b = (case (a, b) of (Some x, Some y) \<Rightarrow> x = y | _ \<Rightarrow> False)"

text \<open>
  \<open>getCurrentDate\<close> returns a copy of the \<open>Date\<close> it has set to 23:59:59.999; the value
  here is the time value of that \<open>Date\<close>.
\<close>

definition getCurrentDate :: "Clock \<Rightarrow> timeValue" where
  "getCurrentDate clk =
     (let currentDate = Some (now clk)
      in Date_setHours clk 23 59 59 999 currentDate)"

text \<open>
  The argument of the two predicates is \<open>null\<close> or a \<open>Date\<close>, given by its time value.
\<close>

definition isTaskExpired :: "Clock \<Rightarrow> timeValue option \<Rightarrow> bool" where
  "isTaskExpired clk due =
     (case due of
        None \<Rightarrow> False
      | Some d \<Rightarrow> number_gt (getCurrentDate clk) d)"

definition isTaskExpiringToday :: "Clock \<Rightarrow> timeValue option \<Rightarrow> bool" where
  "isTaskExpiringToday clk due =
     (case due of
        None \<Rightarrow> False
      | Some d \<Rightarrow> number_eq (getCurrentDate clk) d)"

text \<open>\<open>Object.values(repeating).some(Boolean)\<close>\<close>

definition isTaskRepeating :: "Repeating \<Rightarrow> bool" where
  "isTaskRepeating r = (mo r \<or> tu r \<or> we r \<or> th r \<or> fr r \<or> sa r \<or> su r)"

text \<open>All seven flags are false.\<close>

definition noRepeating :: "Repeating \<Rightarrow> bool" where
  "noRepeating r =
     (\<not> mo r \<and> \<not> tu r \<and> \<not> we r \<and> \<not> th r \<and> \<not> fr r \<and> \<not> sa r \<and> \<not> su r)"

subsection \<open>The mock generator\<close>

text \<open>
  \<open>getRandomInteger\<close> is imported from \<open>utils\<close> and is an input of the model:
  \<open>rnd n a b\<close> is the value that the \<open>n\<close>-th call of the run returns when it is called
  as \<open>getRandomInteger(a, b)\<close>. Every generator function takes the number of calls made so
  far and returns it updated, in the evaluation order of the source.
\<close>

type_synonym Random = "nat \<Rightarrow> int \<Rightarrow> int \<Rightarrow> int"

text \<open>\<open>Boolean(n)\<close> for a number \<open>n\<close>.\<close>

definition Boolean :: "int \<Rightarrow> bool" where
  "Boolean n = (n \<noteq> 0)"

text \<open>\<open>xs[i]\<close> for an integer \<open>i\<close>: \<open>undefined\<close> out of range.\<close>

definition at_index :: "'a list \<Rightarrow> int \<Rightarrow> 'a option" where
  "at_index xs i = (if 0 \<le> i \<and> i < int (length xs) then Some (xs ! nat i) else None)"

text \<open>
  The three literal descriptions of the source are Cyrillic text; the table is passed in
  as \<open>descriptions\<close>.
\<close>

definition generateDescription :: "string list \<Rightarrow> Random \<Rightarrow> nat \<Rightarrow> string option \<times> nat" where
  "generateDescription descriptions rnd c =
     (let randomIndex = rnd c 0 (int (length descriptions) - 1)
      in (at_index descriptions randomIndex, Suc c))"

definition generateDate :: "Clock \<Rightarrow> Random \<Rightarrow> nat \<Rightarrow> timeValue option \<times> nat" where
  "generateDate clk rnd c =
     (let isDate = Boolean (rnd c 0 1) in
      if \<not> isDate then (None, Suc c)
      else
        (let maxDaysGap = 7;
             daysGap = rnd (Suc c) (- maxDaysGap) maxDaysGap;
             currentDate = Some (now clk);
             currentDate1 = Date_setHours clk 23 59 59 999 currentDate;
             currentDate2 = Date_setDate_getDate_plus clk daysGap currentDate1
         in (Some currentDate2, Suc (Suc c))))"

definition generateRepeatingDays :: "Random \<Rightarrow> nat \<Rightarrow> Repeating \<times> nat" where
  "generateRepeatingDays rnd c =
     (\<lparr>mo = False, tu = False, we = Boolean (rnd c 0 1), th = False,
       fr = Boolean (rnd (Suc c) 0 1), sa = False, su = False\<rparr>, Suc (Suc c))"

definition getRandomColor :: "string list \<Rightarrow> Random \<Rightarrow> nat \<Rightarrow> string option \<times> nat" where
  "getRandomColor COLORS rnd c =
     (let randomIndex = rnd c 0 (int (length COLORS) - 1)
      in (at_index COLORS randomIndex, Suc c))"

definition generateTask ::
  "string list \<Rightarrow> string list \<Rightarrow> Clock \<Rightarrow> Random \<Rightarrow> nat \<Rightarrow> timeValue MockTask \<times> nat" where
  "generateTask descriptions COLORS clk rnd c0 =
     (let (due, c1) = generateDate clk rnd c0;
          (rep, c2) =
            (if due = None then generateRepeatingDays rnd c1
             else (\<lparr>mo = False, tu = False, we = False, th = False,
                    fr = False, sa = False, su = False\<rparr>, c1));
          (descr, c3) = generateDescription descriptions rnd c2;
          (col, c4) = getRandomColor COLORS rnd c3;
          archive = Boolean (rnd c4 0 1);
          favorite = Boolean (rnd (Suc c4) 0 1)
      in (\<lparr>description = descr, dueDate = due, repeating = rep, color = col,
           isArchive = archive, isFavorite = favorite\<rparr>, Suc (Suc c4)))"

section \<open>The board presenter\<close>

subsection \<open>Constants and collaborators\<close>

text \<open>
  The enumerations of \<open>const\<close>, with the members the board uses. The filter categories
  are the ones the specification lists.
\<close>

datatype SortType = DEFAULT | DATE_UP | DATE_DOWN

datatype UserAction = UPDATE_TASK | ADD_TASK | DELETE_TASK

datatype UpdateType = PATCH | MINOR | MAJOR | INIT

datatype FilterType =
  FILTER_ALL | FILTER_OVERDUE | FILTER_TODAY | FILTER_FAVORITES | FILTER_ARCHIVE

datatype TaskPresenterViewState = SAVING | DELETING | ABORTING

definition TASK_AMOUNT_PER_STEP :: nat where
  "TASK_AMOUNT_PER_STEP = 8"

text \<open>
  Reading a property of \<open>undefined\<close> throws a \<open>TypeError\<close>. A result is either the board
  after the call, or the error thrown together with the board as it was when the error was
  thrown.
\<close>

datatype error = TypeError

text \<open>
  Modelled from the spec: the class \<open>TaskPresenter\<close> (\<open>presenter/task\<close>) is missing from
  the sources. A presenter is an object (\<open>serial\<close> is its identity), bound to the entity of
  its last \<open>init(task)\<close>; \<open>init\<close> re-renders its card with that entity in the normal
  state; \<open>setViewState\<close> applies SAVING, DELETING or ABORTING to the rendered form and leaves
  the entity alone; \<open>destroy\<close> removes its card from the task list and is idempotent.
\<close>

record TaskPresenter =
  serial :: nat
  boundTask :: Task
  viewState :: "TaskPresenterViewState option"

definition TaskPresenter_init :: "Task \<Rightarrow> TaskPresenter \<Rightarrow> TaskPresenter" where
  "TaskPresenter_init task p = p\<lparr>boundTask := task, viewState := None\<rparr>"

definition setViewState :: "TaskPresenterViewState \<Rightarrow> TaskPresenter \<Rightarrow> TaskPresenter" where
  "setViewState st p = p\<lparr>viewState := Some st\<rparr>"

text \<open>
  Modelled from the spec: the class \<open>TaskNewPresenter\<close> (\<open>presenter/task-new\<close>) is missing
  from the sources. It is closed or open, and an open form is normal, saving or aborting;
  \<open>destroy\<close> closes it.
\<close>

datatype TaskNewPresenter = NEW_CLOSED | NEW_OPEN | NEW_SAVING | NEW_ABORTING

text \<open>A request sent to the service (\<open>api.updateTask\<close>, \<open>api.addTask\<close>, \<open>api.deleteTask\<close>).\<close>

datatype ApiCall = UpdateTaskCall Task | AddTaskCall Task | DeleteTaskCall Task

text \<open>How the promise returned by the service settles.\<close>

datatype Outcome = Resolved Task | Rejected

text \<open>
  The functions imported from \<open>utils/filter\<close> and \<open>utils/task\<close> are missing from the
  sources and are inputs of the board: \<open>filterBy f\<close> is \<open>filter[f]\<close>, and the two
  comparators return a number as \<open>Array.prototype.sort\<close> expects it.
\<close>

record Env =
  filterBy :: "FilterType \<Rightarrow> Task list \<Rightarrow> Task list"
  sortTasksUp :: "Task \<Rightarrow> Task \<Rightarrow> int"
  sortTasksDown :: "Task \<Rightarrow> Task \<Rightarrow> int"

subsection \<open>The state of the board\<close>

text \<open>
  The fields of \<open>Board\<close>, with the collaborators' state the board reads and writes:
  \<open>tasksModel\<close> is the array of the collection model, \<open>filterModel\<close> the active filter,
  \<open>apiCalls\<close> the requests sent so far. \<open>taskPresenter\<close> is the object that maps a task
  id to its presenter, in insertion order. The rendered page is \<open>taskList\<close> (the cards of
  the task list component in document order, each with the serial of its presenter and the
  task it shows) and four flags for the other components.
\<close>

record Board =
  tasksModel :: "Task list"
  filterModel :: FilterType
  apiCalls :: "ApiCall list"
  renderedTasksCount :: nat
  currentSortType :: SortType
  taskPresenter :: "(nat \<times> TaskPresenter) list"
  isLoading :: bool
  taskNewPresenter :: TaskNewPresenter
  nextSerial :: nat
  taskList :: "(nat \<times> Task) list"
  sortShown :: "SortType option"
  noTaskShown :: bool
  loadingShown :: bool
  loadMoreButtonShown :: bool

type_synonym Result = "(error \<times> Board) + Board"

text \<open>The board after a call, whether it returned or threw.\<close>

definition board_of :: "Result \<Rightarrow> Board" where
  "board_of res = (case res of Inr b \<Rightarrow> b | Inl (e, b) \<Rightarrow> b)"

text \<open>The constructor, for a collection model and a filter model in a given state.\<close>

definition Board_new :: "Task list \<Rightarrow> FilterType \<Rightarrow> Board" where
  "Board_new tasks flt =
     \<lparr>tasksModel = tasks, filterModel = flt, apiCalls = [],
      renderedTasksCount = TASK_AMOUNT_PER_STEP, currentSortType = DEFAULT,
      taskPresenter = [], isLoading = True, taskNewPresenter = NEW_CLOSED,
      nextSerial = 0, taskList = [], sortShown = None, noTaskShown = False,
      loadingShown = False, loadMoreButtonShown = False\<rparr>"

subsection \<open>Arrays\<close>

text \<open>\<open>xs.slice(a, b)\<close> for indices that are not negative.\<close>

definition slice :: "nat \<Rightarrow> nat \<Rightarrow> 'a list \<Rightarrow> 'a list" where
  "slice a b xs = take (b - a) (drop a xs)"

text \<open>
  \<open>xs.sort(cmp)\<close>: a stable sort, which is what the language requires of
  \<open>Array.prototype.sort\<close> for a consistent comparator. An element goes before the first
  element that it does not follow (\<open>cmp x y \<le> 0\<close>).
\<close>

fun insort_cmp :: "('a \<Rightarrow> 'a \<Rightarrow> int) \<Rightarrow> 'a \<Rightarrow> 'a list \<Rightarrow> 'a list" where
  "insort_cmp cmp x [] = [x]"
| "insort_cmp cmp x (y # ys) =
     (if cmp x y \<le> 0 then x # y # ys else y # insort_cmp cmp x ys)"

definition sort_cmp :: "('a \<Rightarrow> 'a \<Rightarrow> int) \<Rightarrow> 'a list \<Rightarrow> 'a list" where
  "sort_cmp cmp xs = foldr (insort_cmp cmp) xs []"

subsection \<open>The visible sequence\<close>

definition getTasks :: "Env \<Rightarrow> Board \<Rightarrow> Task list" where
  "getTasks env b =
     (let filterType = filterModel b;
          tasks = tasksModel b;
          filtredTasks = filterBy env filterType tasks
      in case currentSortType b of
           DATE_UP \<Rightarrow> sort_cmp (sortTasksUp env) filtredTasks
         | DATE_DOWN \<Rightarrow> sort_cmp (sortTasksDown env) filtredTasks
         | DEFAULT \<Rightarrow> filtredTasks)"

text \<open>
  \<open>_getTasks\<close> once more, with the identity of the arrays: \<open>sort\<close> sorts the array
  \<open>filtredTasks\<close> in place. \<open>returnsModelArray f\<close> says that \<open>filter[f]\<close> hands back the
  very array of the collection model (the model gave out its own array and the filter
  returned its argument); the call then reorders the collection. Otherwise \<open>filtredTasks\<close>
  is a new array and only that one is sorted. The result is the sequence returned and the
  board after the call.
\<close>

definition getTasks_inPlace :: "Env \<Rightarrow> (FilterType \<Rightarrow> bool) \<Rightarrow> Board \<Rightarrow> Task list \<times> Board" where
  "getTasks_inPlace env returnsModelArray b =
     (let filterType = filterModel b;
          tasks = tasksModel b;
          sameArray = returnsModelArray filterType;
          filtredTasks = (if sameArray then tasks else filterBy env filterType tasks)
      in case currentSortType b of
           DATE_UP \<Rightarrow>
             (let sorted = sort_cmp (sortTasksUp env) filtredTasks
              in (sorted, if sameArray then b\<lparr>tasksModel := sorted\<rparr> else b))
         | DATE_DOWN \<Rightarrow>
             (let sorted = sort_cmp (sortTasksDown env) filtredTasks
              in (sorted, if sameArray then b\<lparr>tasksModel := sorted\<rparr> else b))
         | DEFAULT \<Rightarrow> (filtredTasks, b))"

subsection \<open>Rendering\<close>

text \<open>
  \<open>_renderTask\<close>: a new presenter is initialised with the task, which appends its card to
  the task list, and is stored under the task's id (replacing what was stored there).
\<close>

definition renderTask :: "Task \<Rightarrow> Board \<Rightarrow> Board" where
  "renderTask task b =
     (let taskPresenter_new = \<lparr>serial = nextSerial b, boundTask = task, viewState = None\<rparr>
      in b\<lparr>nextSerial := Suc (nextSerial b),
           taskList := taskList b @ [(nextSerial b, task)],
           taskPresenter := AList.update (task_id task) taskPresenter_new (taskPresenter b)\<rparr>)"

definition renderTasks :: "Task list \<Rightarrow> Board \<Rightarrow> Board" where
  "renderTasks tasks b = fold renderTask tasks b"

text \<open>
  The registry entries that rendering the tasks \<open>ts\<close> creates when the next presenter is
  number \<open>n\<close>: one new presenter per task, under the task's id.
\<close>

definition newPresenters :: "nat \<Rightarrow> Task list \<Rightarrow> (nat \<times> TaskPresenter) list" where
  "newPresenters n ts =
     map (\<lambda>(i, t). (task_id t, \<lparr>serial = i, boundTask = t, viewState = None\<rparr>))
       (enumerate n ts)"

text \<open>\<open>presenter.destroy()\<close>, on the cards of the task list.\<close>

definition TaskPresenter_destroy :: "TaskPresenter \<Rightarrow> (nat \<times> Task) list \<Rightarrow> (nat \<times> Task) list" where
  "TaskPresenter_destroy p cards = filter (\<lambda>card. fst card \<noteq> serial p) cards"

definition clearBoard :: "Env \<Rightarrow> bool \<Rightarrow> bool \<Rightarrow> Board \<Rightarrow> Board" where
  "clearBoard env resetRenderedTaskCount resetSortType b =
     (let taskCount = length (getTasks env b)
      in b\<lparr>taskNewPresenter := NEW_CLOSED,
           taskList := fold TaskPresenter_destroy (map snd (taskPresenter b)) (taskList b),
           taskPresenter := [],
           sortShown := None,
           noTaskShown := False,
           loadingShown := False,
           loadMoreButtonShown := False,
           renderedTasksCount :=
             (if resetRenderedTaskCount then TASK_AMOUNT_PER_STEP
              else min taskCount (renderedTasksCount b)),
           currentSortType :=
             (if resetSortType then DEFAULT else currentSortType b)\<rparr>)"

definition renderBoard :: "Env \<Rightarrow> Board \<Rightarrow> Board" where
  "renderBoard env b =
     (if isLoading b then b\<lparr>loadingShown := True\<rparr>
      else
        (let tasks = getTasks env b;
             taskCount = length (getTasks env b)
         in if taskCount = 0 then b\<lparr>noTaskShown := True\<rparr>
            else
              (let b1 = b\<lparr>sortShown := Some (currentSortType b)\<rparr>;
                   b2 = renderTasks
                          (slice 0 (min taskCount (renderedTasksCount b1)) tasks) b1
               in if taskCount > renderedTasksCount b2
                  then b2\<lparr>loadMoreButtonShown := True\<rparr>
                  else b2)))"

text \<open>
  The materialized tasks of a board: the slice of the visible sequence that \<open>_renderBoard\<close>
  renders, and nothing while the board is loading.
\<close>

definition materialized :: "Env \<Rightarrow> Board \<Rightarrow> Task list" where
  "materialized env b =
     (if isLoading b then []
      else slice 0 (min (length (getTasks env b)) (renderedTasksCount b)) (getTasks env b))"

definition handleLoadMoreButtonClick :: "Env \<Rightarrow> Board \<Rightarrow> Board" where
  "handleLoadMoreButtonClick env b =
     (let taskCount = length (getTasks env b);
          newRenderedTaskCount = min taskCount (renderedTasksCount b + TASK_AMOUNT_PER_STEP);
          tasks = slice (renderedTasksCount b) newRenderedTaskCount (getTasks env b);
          b1 = renderTasks tasks b;
          b2 = b1\<lparr>renderedTasksCount := newRenderedTaskCount\<rparr>
      in if renderedTasksCount b2 \<ge> taskCount
         then b2\<lparr>loadMoreButtonShown := False\<rparr>
         else b2)"

text \<open>
  What holds of a rendered board between two clicks on the load-more button: the cards
  show the first \<open>renderedTasksCount\<close> tasks of the visible sequence, in its order, and
  the button is there exactly when the visible sequence is longer than that.
\<close>

definition paged :: "Env \<Rightarrow> Board \<Rightarrow> bool" where
  "paged env b =
     (map snd (taskList b) = take (renderedTasksCount b) (getTasks env b)
      \<and> loadMoreButtonShown b = (renderedTasksCount b < length (getTasks env b)))"

definition handleSortTypeChange :: "Env \<Rightarrow> SortType \<Rightarrow> Board \<Rightarrow> Board" where
  "handleSortTypeChange env sortType b =
     (if currentSortType b = sortType then b
      else renderBoard env (clearBoard env True False (b\<lparr>currentSortType := sortType\<rparr>)))"


subsection \<open>Model events\<close>

text \<open>
  \<open>this._taskPresenter[id].init(data)\<close> and \<open>this._taskPresenter[id].setViewState(st)\<close>:
  the lookup of an id that is not a key gives \<open>undefined\<close>, and the call on it throws.
\<close>

definition presenter_init_at :: "Task \<Rightarrow> Board \<Rightarrow> Result" where
  "presenter_init_at data b =
     (case map_of (taskPresenter b) (task_id data) of
        None \<Rightarrow> Inl (TypeError, b)
      | Some p \<Rightarrow>
          Inr (b\<lparr>taskPresenter :=
                    AList.update (task_id data) (TaskPresenter_init data p) (taskPresenter b),
                  taskList :=
                    map (\<lambda>card. if fst card = serial p then (serial p, data) else card)
                      (taskList b)\<rparr>))"

definition presenter_setViewState_at :: "nat \<Rightarrow> TaskPresenterViewState \<Rightarrow> Board \<Rightarrow> Result" where
  "presenter_setViewState_at i st b =
     (case map_of (taskPresenter b) i of
        None \<Rightarrow> Inl (TypeError, b)
      | Some p \<Rightarrow> Inr (b\<lparr>taskPresenter := AList.update i (setViewState st p) (taskPresenter b)\<rparr>))"

definition handleModelEvent :: "Env \<Rightarrow> UpdateType \<Rightarrow> Task \<Rightarrow> Board \<Rightarrow> Result" where
  "handleModelEvent env updateType data b =
     (case updateType of
        PATCH \<Rightarrow> presenter_init_at data b
      | MINOR \<Rightarrow> Inr (renderBoard env (clearBoard env False False b))
      | MAJOR \<Rightarrow> Inr (renderBoard env (clearBoard env True True b))
      | INIT \<Rightarrow> Inr (renderBoard env (b\<lparr>isLoading := False, loadingShown := False\<rparr>)))"

subsection \<open>View actions\<close>

text \<open>
  Modelled from the spec: the collection model (\<open>model/tasks\<close>) is missing from the
  sources. Each of its three operations replaces, adds or removes exactly one entity and
  fires one notification carrying the update type, which the board receives in
  \<open>handleModelEvent\<close>; an id that is not in the collection changes nothing.
\<close>

definition TasksModel_updateTask :: "Env \<Rightarrow> UpdateType \<Rightarrow> Task \<Rightarrow> Board \<Rightarrow> Result" where
  "TasksModel_updateTask env updateType update b =
     (if task_id update \<in> set (map task_id (tasksModel b))
      then handleModelEvent env updateType update
             (b\<lparr>tasksModel :=
                   map (\<lambda>t. if task_id t = task_id update then update else t) (tasksModel b)\<rparr>)
      else Inr b)"

definition TasksModel_addTask :: "Env \<Rightarrow> UpdateType \<Rightarrow> Task \<Rightarrow> Board \<Rightarrow> Result" where
  "TasksModel_addTask env updateType update b =
     handleModelEvent env updateType update (b\<lparr>tasksModel := update # tasksModel b\<rparr>)"

definition TasksModel_deleteTask :: "Env \<Rightarrow> UpdateType \<Rightarrow> Task \<Rightarrow> Board \<Rightarrow> Result" where
  "TasksModel_deleteTask env updateType update b =
     (if task_id update \<in> set (map task_id (tasksModel b))
      then handleModelEvent env updateType update
             (b\<lparr>tasksModel := filter (\<lambda>t. task_id t \<noteq> task_id update) (tasksModel b)\<rparr>)
      else Inr b)"

text \<open>
  \<open>_handleViewAction\<close>, up to the point where it returns: the presenter is marked busy
  and the request is sent. An error thrown by the lookup leaves before the request.
\<close>

definition handleViewAction :: "UserAction \<Rightarrow> UpdateType \<Rightarrow> Task \<Rightarrow> Board \<Rightarrow> Result" where
  "handleViewAction actionType updateType update b =
     (case actionType of
        UPDATE_TASK \<Rightarrow>
          (case presenter_setViewState_at (task_id update) SAVING b of
             Inl e \<Rightarrow> Inl e
           | Inr b1 \<Rightarrow> Inr (b1\<lparr>apiCalls := apiCalls b1 @ [UpdateTaskCall update]\<rparr>))
      | ADD_TASK \<Rightarrow>
          Inr (b\<lparr>taskNewPresenter := NEW_SAVING,
                 apiCalls := apiCalls b @ [AddTaskCall update]\<rparr>)
      | DELETE_TASK \<Rightarrow>
          (case presenter_setViewState_at (task_id update) DELETING b of
             Inl e \<Rightarrow> Inl e
           | Inr b1 \<Rightarrow> Inr (b1\<lparr>apiCalls := apiCalls b1 @ [DeleteTaskCall update]\<rparr>)))"

text \<open>
  \<open>promise.then(f).catch(g)\<close> when the promise settles: \<open>g\<close> runs when the promise rejects
  and also when \<open>f\<close> throws, on the board as \<open>f\<close> left it; what \<open>g\<close> throws is not
  handled by anything.
\<close>

definition then_catch ::
  "Outcome \<Rightarrow> (Task \<Rightarrow> Board \<Rightarrow> Result) \<Rightarrow> (Board \<Rightarrow> Result) \<Rightarrow> Board \<Rightarrow> Result" where
  "then_catch outcome f g b =
     (case outcome of
        Rejected \<Rightarrow> g b
      | Resolved response \<Rightarrow>
          (case f response b of
             Inr b1 \<Rightarrow> Inr b1
           | Inl (e, b1) \<Rightarrow> g b1))"

text \<open>
  The rest of \<open>_handleViewAction\<close>: the callbacks that run when the request of the action
  settles, on the board as it is at that moment.
\<close>

definition handleViewAction_settled ::
  "Env \<Rightarrow> UserAction \<Rightarrow> UpdateType \<Rightarrow> Task \<Rightarrow> Outcome \<Rightarrow> Board \<Rightarrow> Result" where
  "handleViewAction_settled env actionType updateType update outcome b =
     (case actionType of
        UPDATE_TASK \<Rightarrow>
          then_catch outcome
            (\<lambda>response. TasksModel_updateTask env updateType response)
            (presenter_setViewState_at (task_id update) ABORTING) b
      | ADD_TASK \<Rightarrow>
          then_catch outcome
            (\<lambda>response. TasksModel_addTask env updateType response)
            (\<lambda>b1. Inr (b1\<lparr>taskNewPresenter := NEW_ABORTING\<rparr>)) b
      | DELETE_TASK \<Rightarrow>
          then_catch outcome
            (\<lambda>response. TasksModel_deleteTask env updateType update)
            (presenter_setViewState_at (task_id update) ABORTING) b)"

section \<open>The filter and the comparators, from the specification\<close>

text \<open>
  Modelled from the spec: the table \<open>filter\<close> of \<open>utils/filter\<close> is missing from the
  sources. Filtering is a pure predicate per category: every category keeps the tasks that
  satisfy its predicate, in their order; overdue is \<open>isTaskExpired\<close>, today is
  \<open>isTaskExpiringToday\<close>, favorites is \<open>isFavorite\<close>, archive is \<open>isArchive\<close>, and
  all keeps every task.
\<close>

definition spec_filter_predicate :: "Clock \<Rightarrow> FilterType \<Rightarrow> Task \<Rightarrow> bool" where
  "spec_filter_predicate clk f task =
     (case f of
        FILTER_ALL \<Rightarrow> True
      | FILTER_OVERDUE \<Rightarrow> isTaskExpired clk (map_option Some (dueDate task))
      | FILTER_TODAY \<Rightarrow> isTaskExpiringToday clk (map_option Some (dueDate task))
      | FILTER_FAVORITES \<Rightarrow> isFavorite task
      | FILTER_ARCHIVE \<Rightarrow> isArchive task)"

definition spec_filter :: "Clock \<Rightarrow> FilterType \<Rightarrow> Task list \<Rightarrow> Task list" where
  "spec_filter clk f tasks = filter (spec_filter_predicate clk f) tasks"

text \<open>
  Modelled from the spec: one pass of the filter of a category over the collection, as it
  runs. \<open>isTaskExpired\<close> and \<open>isTaskExpiringToday\<close> take the due date alone and read the
  clock themselves (\<open>getCurrentDate\<close> calls \<open>new Date()\<close>), so the pass reads the clock
  once for every task it tests: \<open>clocks i\<close> is the clock at reading number \<open>i\<close>, and \<open>c\<close>
  is the number of the next reading.
\<close>

fun spec_filter_run :: "(nat \<Rightarrow> Clock) \<Rightarrow> nat \<Rightarrow> FilterType \<Rightarrow> Task list \<Rightarrow> Task list" where
  "spec_filter_run clocks c f [] = []"
| "spec_filter_run clocks c f (task # tasks) =
     (if spec_filter_predicate (clocks c) f task
      then task # spec_filter_run clocks (Suc c) f tasks
      else spec_filter_run clocks (Suc c) f tasks)"

text \<open>
  Modelled from the spec: the comparators \<open>sortTasksUp\<close> and \<open>sortTasksDown\<close> of
  \<open>utils/task\<close> are missing from the sources. Two tasks with due dates compare by their
  dates, ascending or descending; a task with no due date has a fixed position that does
  not depend on the direction. The specification leaves the choice of that position to a
  documented policy, which is the parameter \<open>absentLast\<close>: absent dates sort last when it
  is true and first when it is false.
\<close>

definition weightForNullDate :: "bool \<Rightarrow> date option \<Rightarrow> date option \<Rightarrow> int option" where
  "weightForNullDate absentLast dateA dateB =
     (case (dateA, dateB) of
        (None, None) \<Rightarrow> Some 0
      | (None, Some y) \<Rightarrow> Some (if absentLast then 1 else - 1)
      | (Some x, None) \<Rightarrow> Some (if absentLast then - 1 else 1)
      | (Some x, Some y) \<Rightarrow> None)"

definition spec_sortTasksUp :: "bool \<Rightarrow> Task \<Rightarrow> Task \<Rightarrow> int" where
  "spec_sortTasksUp absentLast taskA taskB =
     (case weightForNullDate absentLast (dueDate taskA) (dueDate taskB) of
        Some weight \<Rightarrow> weight
      | None \<Rightarrow> the (dueDate taskA) - the (dueDate taskB))"

definition spec_sortTasksDown :: "bool \<Rightarrow> Task \<Rightarrow> Task \<Rightarrow> int" where
  "spec_sortTasksDown absentLast taskA taskB =
     (case weightForNullDate absentLast (dueDate taskA) (dueDate taskB) of
        Some weight \<Rightarrow> weight
      | None \<Rightarrow> the (dueDate taskB) - the (dueDate taskA))"

definition spec_env :: "bool \<Rightarrow> Clock \<Rightarrow> Env" where
  "spec_env absentLast clk =
     \<lparr>filterBy = spec_filter clk,
      sortTasksUp = spec_sortTasksUp absentLast,
      sortTasksDown = spec_sortTasksDown absentLast\<rparr>"

text \<open>
  The filtered tasks that have a due date, those that have none, and the time value of the
  due date of a task that has one.
\<close>

definition datedTasks :: "Env \<Rightarrow> Board \<Rightarrow> Task list" where
  "datedTasks env b =
     filter (\<lambda>t. dueDate t \<noteq> None) (filterBy env (filterModel b) (tasksModel b))"

definition undatedTasks :: "Env \<Rightarrow> Board \<Rightarrow> Task list" where
  "undatedTasks env b =
     filter (\<lambda>t. dueDate t = None) (filterBy env (filterModel b) (tasksModel b))"

definition dueTime :: "Task \<Rightarrow> int" where
  "dueTime t = the (dueDate t)"

section \<open>Example data\<close>

definition exampleTask :: "nat \<Rightarrow> date option \<Rightarrow> Task" where
  "exampleTask i due =
     \<lparr>description = Some ''A'', dueDate = due,
      repeating = \<lparr>mo = False, tu = False, we = False, th = False,
                   fr = False, sa = False, su = False\<rparr>,
      color = Some ''black'', isArchive = False, isFavorite = False, task_id = i\<rparr>"

definition exampleClock :: Clock where
  "exampleClock = \<lparr>now = 0, LocalTZA = (\<lambda>t isUTC. 0)\<rparr>"

text \<open>
  New York on 2026-11-01, the day daylight saving time ends (at 06:00 UTC the offset goes
  from four to five hours behind UTC; local times before 02:00 are read with the offset
  before the change), read at 00:30 local time.
\<close>

definition newYorkClock :: Clock where
  "newYorkClock =
     \<lparr>now = 1793507400000,
      LocalTZA = (\<lambda>t isUTC.
        if isUTC then (if t < 1793512800000 then - 14400000 else - 18000000)
        else (if t < 1793498400000 then - 14400000 else - 18000000))\<rparr>"

text \<open>A pass that starts at time 0 and goes on after midnight (UTC).\<close>

definition midnightClocks :: "nat \<Rightarrow> Clock" where
  "midnightClocks i =
     (if i = 0 then \<lparr>now = 0, LocalTZA = (\<lambda>t isUTC. 0)\<rparr>
      else \<lparr>now = 86400000, LocalTZA = (\<lambda>t isUTC. 0)\<rparr>)"



definition exampleEnv :: Env where
  "exampleEnv = spec_env True exampleClock"

text \<open>Tasks with the ids 1 to \<open>n\<close>, in this order.\<close>

definition exampleTasks :: "nat \<Rightarrow> Task list" where
  "exampleTasks n = map (\<lambda>i. exampleTask i None) [1..<Suc n]"

text \<open>
  The board of a collection when its first load arrives (the INIT notification has cleared
  the loading flag), and the same board once it is rendered.
\<close>

definition readyBoard :: "Task list \<Rightarrow> Board" where
  "readyBoard tasks = (Board_new tasks FILTER_ALL)\<lparr>isLoading := False\<rparr>"

definition loadedBoard :: "Task list \<Rightarrow> Board" where
  "loadedBoard tasks = renderBoard exampleEnv (readyBoard tasks)"

section \<open>Properties of the date predicates\<close>

lemma MakeTime_endOfDay: "MakeTime 23 59 59 999 = msPerDay - 1"
  by (simp add: MakeTime_def msPerDay_def)

lemma Day_MakeDate: "0 \<le> time \<Longrightarrow> time < msPerDay \<Longrightarrow> Day (MakeDate day time) = day"
  by (simp add: Day_def MakeDate_def msPerDay_def)

lemma TimeWithinDay_MakeDate:
  "0 \<le> time \<Longrightarrow> time < msPerDay \<Longrightarrow> TimeWithinDay (MakeDate day time) = time"
  by (simp add: TimeWithinDay_def MakeDate_def msPerDay_def)

lemma MakeDate_Day_TimeWithinDay: "MakeDate (Day t) (TimeWithinDay t) = t"
  by (simp add: MakeDate_def Day_def TimeWithinDay_def)

lemma TimeWithinDay_bounds: "0 \<le> TimeWithinDay t \<and> TimeWithinDay t < msPerDay"
  by (simp add: TimeWithinDay_def msPerDay_def)

lemma getCurrentDate_eq:
  "getCurrentDate clk =
     TimeClip (UTC clk (MakeDate (Day (LocalTime clk (now clk))) (msPerDay - 1)))"
  by (simp add: getCurrentDate_def Date_setHours_def Let_def MakeTime_endOfDay)

lemma isTaskExpired_iff:
  "isTaskExpired clk due =
     (\<exists>d e. due = Some (Some d) \<and> getCurrentDate clk = Some e \<and> d < e)"
  by (auto simp add: isTaskExpired_def number_gt_def split: option.splits)

lemma isTaskExpiringToday_iff:
  "isTaskExpiringToday clk due =
     (\<exists>d e. due = Some (Some d) \<and> getCurrentDate clk = Some e \<and> d = e)"
  by (auto simp add: isTaskExpiringToday_def number_eq_def split: option.splits)

text \<open>
  C7. Let the current moment be the end of the current day: the local time with the day
  of the local time now (not a later day: it is less than one day after now) and the time
  23:59:59.999 within it, taken back to a time value. \<open>getCurrentDate\<close> is the \<open>Date\<close>
  of that moment. \<open>isTaskExpired\<close> holds exactly when the due date is present and its
  time is strictly before that moment, \<open>isTaskExpiringToday\<close> holds exactly when the due
  date is present and its time is equal to that moment, and both are false when the due
  date is \<open>null\<close>. (A comparison with an Invalid Date is false, as in the language.)
\<close>

theorem C7_date_predicates:
  "(let localNow = LocalTime clk (now clk);
        endOfDay = MakeDate (Day localNow) (msPerDay - 1)
    in Day endOfDay = Day localNow
       \<and> TimeWithinDay endOfDay = MakeTime 23 59 59 999
       \<and> localNow \<le> endOfDay
       \<and> endOfDay < localNow + msPerDay
       \<and> getCurrentDate clk = TimeClip (UTC clk endOfDay)
       \<and> isTaskExpired clk due =
           (\<exists>d e. due = Some (Some d) \<and> TimeClip (UTC clk endOfDay) = Some e \<and> d < e)
       \<and> isTaskExpiringToday clk due =
           (\<exists>d e. due = Some (Some d) \<and> TimeClip (UTC clk endOfDay) = Some e \<and> d = e)
       \<and> isTaskExpired clk None = False
       \<and> isTaskExpiringToday clk None = False)"
proof -
  let ?L = "LocalTime clk (now clk)"
  let ?E = "MakeDate (Day ?L) (msPerDay - 1)"
  have day: "Day ?E = Day ?L"
    by (rule Day_MakeDate) (simp_all add: msPerDay_def)
  have time: "TimeWithinDay ?E = MakeTime 23 59 59 999"
    unfolding MakeTime_endOfDay by (rule TimeWithinDay_MakeDate) (simp_all add: msPerDay_def)
  have L: "?L = MakeDate (Day ?L) (TimeWithinDay ?L)"
    by (simp add: MakeDate_Day_TimeWithinDay)
  have lower: "?L \<le> ?E"
  proof -
    have "MakeDate (Day ?L) (TimeWithinDay ?L) \<le> ?E"
      using TimeWithinDay_bounds [of ?L] by (simp add: MakeDate_def)
    with L show ?thesis by simp
  qed
  have upper: "?E < ?L + msPerDay"
  proof -
    have "?E < MakeDate (Day ?L) (TimeWithinDay ?L) + msPerDay"
      using TimeWithinDay_bounds [of ?L] by (simp add: MakeDate_def)
    with L show ?thesis by simp
  qed
  have cur: "getCurrentDate clk = TimeClip (UTC clk ?E)"
    by (rule getCurrentDate_eq)
  have expired: "isTaskExpired clk due =
      (\<exists>d e. due = Some (Some d) \<and> TimeClip (UTC clk ?E) = Some e \<and> d < e)"
    by (simp only: isTaskExpired_iff cur)
  have today: "isTaskExpiringToday clk due =
      (\<exists>d e. due = Some (Some d) \<and> TimeClip (UTC clk ?E) = Some e \<and> d = e)"
    by (simp only: isTaskExpiringToday_iff cur)
  have null: "isTaskExpired clk None = False" "isTaskExpiringToday clk None = False"
    by (simp_all add: isTaskExpired_def isTaskExpiringToday_def)
  show ?thesis
    unfolding Let_def
    by (intro conjI day time lower upper cur expired today null)
qed

text \<open>
  On the day the clocks change the end of the day is 25 hours after the start of the day:
  23:59:59.999 Eastern Standard Time, which is 04:59:59.999 UTC on the next day.
\<close>

lemma getCurrentDate_newYork: "getCurrentDate newYorkClock = Some 1793595599999"
  by (simp add: getCurrentDate_eq newYorkClock_def LocalTime_def UTC_def Day_def MakeDate_def
      TimeClip_def msPerDay_def)

lemma getCurrentDate_exampleClock: "getCurrentDate exampleClock = Some 86399999"
  by (simp add: getCurrentDate_eq exampleClock_def LocalTime_def UTC_def Day_def MakeDate_def
      TimeClip_def msPerDay_def)

text \<open>
  A generated due date one day back from that end of day is 23:59:59.999 of the day before
  in local time, which is still daylight saving time: 25 hours earlier.
\<close>

lemma generateDate_newYork:
  "generateDate newYorkClock (\<lambda>n a b. if n = 0 then 1 else - 1) 0 =
     (Some (Some 1793505599999), 2)"
  by (simp add: generateDate_def Boolean_def Date_setHours_def Date_setDate_getDate_plus_def
      newYorkClock_def LocalTime_def UTC_def Day_def TimeWithinDay_def MakeDate_def
      MakeTime_def TimeClip_def msPerDay_def Let_def)

section \<open>Properties of the mock generator\<close>

lemma generateTask_dueDate:
  "dueDate (fst (generateTask ds cs clk rnd c)) = fst (generateDate clk rnd c)"
  by (simp add: generateTask_def Let_def split: prod.splits)

lemma generateTask_repeating:
  "repeating (fst (generateTask ds cs clk rnd c)) =
     (if fst (generateDate clk rnd c) = None
      then fst (generateRepeatingDays rnd (snd (generateDate clk rnd c)))
      else \<lparr>mo = False, tu = False, we = False, th = False,
            fr = False, sa = False, su = False\<rparr>)"
  by (simp add: generateTask_def Let_def split: prod.splits)

text \<open>
  C9. Every task produced by \<open>generateTask\<close>, whatever the random draws, the clock and
  the tables are: if its \<open>dueDate\<close> is not \<open>null\<close>, all seven \<open>repeating\<close> flags are
  false (so \<open>isTaskRepeating\<close> is false).
\<close>

theorem C9_generateTask_invariant:
  "dueDate (fst (generateTask ds cs clk rnd c)) \<noteq> None \<Longrightarrow>
     noRepeating (repeating (fst (generateTask ds cs clk rnd c)))
     \<and> \<not> isTaskRepeating (repeating (fst (generateTask ds cs clk rnd c)))"
  by (auto simp add: generateTask_dueDate generateTask_repeating noRepeating_def
      isTaskRepeating_def)

text \<open>
  A run whose first draw is 1 (a date is generated) and whose other draws are 0: the task
  is due at the end of the current day and repeats on no day.
\<close>

theorem C9_generateTask_invariant_witness:
  "dueDate (fst (generateTask [''a''] [''black''] exampleClock
       (\<lambda>n a b. if n = 0 then 1 else 0) 0)) = Some (Some 86399999)
   \<and> noRepeating (repeating (fst (generateTask [''a''] [''black''] exampleClock
       (\<lambda>n a b. if n = 0 then 1 else 0) 0)))
   \<and> \<not> isTaskRepeating (repeating (fst (generateTask [''a''] [''black''] exampleClock
       (\<lambda>n a b. if n = 0 then 1 else 0) 0)))"
proof -
  have d: "dueDate (fst (generateTask [''a''] [''black''] exampleClock
       (\<lambda>n a b. if n = 0 then 1 else 0) 0)) = Some (Some 86399999)"
    by (simp add: generateTask_dueDate generateDate_def Boolean_def Date_setHours_def
        Date_setDate_getDate_plus_def exampleClock_def LocalTime_def UTC_def Day_def
        TimeWithinDay_def MakeDate_def MakeTime_def TimeClip_def msPerDay_def Let_def)
  then have "dueDate (fst (generateTask [''a''] [''black''] exampleClock
       (\<lambda>n a b. if n = 0 then 1 else 0) 0)) \<noteq> None"
    by simp
  from C9_generateTask_invariant [OF this] d show ?thesis
    by simp
qed

section \<open>Facts about the example data\<close>

lemma task_id_exampleTask [simp]: "task_id (exampleTask i due) = i"
  by (simp add: exampleTask_def)

lemma loadedBoard_single:
  "loadedBoard [t] =
     \<lparr>tasksModel = [t], filterModel = FILTER_ALL, apiCalls = [],
      renderedTasksCount = 8, currentSortType = DEFAULT,
      taskPresenter = [(task_id t, \<lparr>serial = 0, boundTask = t, viewState = None\<rparr>)],
      isLoading = False, taskNewPresenter = NEW_CLOSED, nextSerial = Suc 0,
      taskList = [(0, t)], sortShown = Some DEFAULT, noTaskShown = False,
      loadingShown = False, loadMoreButtonShown = False\<rparr>"
  by (simp add: loadedBoard_def readyBoard_def renderBoard_def Board_new_def getTasks_def exampleEnv_def
      spec_env_def spec_filter_def spec_filter_predicate_def slice_def renderTasks_def
      renderTask_def TASK_AMOUNT_PER_STEP_def Let_def)

lemma loadedBoard_is_INIT:
  "handleModelEvent exampleEnv INIT data (Board_new tasks FILTER_ALL) = Inr (loadedBoard tasks)"
  by (simp add: handleModelEvent_def loadedBoard_def readyBoard_def Board_new_def)

section \<open>Rejected requests and unregistered ids\<close>

lemma setViewState_at_Some:
  "map_of (taskPresenter b) i = Some p \<Longrightarrow>
     presenter_setViewState_at i st b =
       Inr (b\<lparr>taskPresenter := AList.update i (setViewState st p) (taskPresenter b)\<rparr>)"
  by (simp add: presenter_setViewState_at_def)

lemma setViewState_at_None:
  "map_of (taskPresenter b) i = None \<Longrightarrow> presenter_setViewState_at i st b = Inl (TypeError, b)"
  by (simp add: presenter_setViewState_at_def)

text \<open>
  C1, as stated, fails. On the board of one loaded task an UPDATE of the task is
  dispatched; while the request is pending the filter changes to favorites, which the task
  is not, and the board is rendered again without it (a MAJOR notification); then the
  request rejects. The callback throws a \<open>TypeError\<close>: no presenter is set to ABORTING.
\<close>

theorem C1_counterexample:
  "handleViewAction UPDATE_TASK PATCH (exampleTask 1 (Some 5)) (loadedBoard [exampleTask 1 None]) =
     Inr ((loadedBoard [exampleTask 1 None])
            \<lparr>taskPresenter := [(1, \<lparr>serial = 0, boundTask = exampleTask 1 None,
                                     viewState = Some SAVING\<rparr>)],
             apiCalls := [UpdateTaskCall (exampleTask 1 (Some 5))]\<rparr>)
   \<and> handleModelEvent exampleEnv MAJOR (exampleTask 1 None)
       ((loadedBoard [exampleTask 1 None])
            \<lparr>taskPresenter := [(1, \<lparr>serial = 0, boundTask = exampleTask 1 None,
                                     viewState = Some SAVING\<rparr>)],
             apiCalls := [UpdateTaskCall (exampleTask 1 (Some 5))],
             filterModel := FILTER_FAVORITES\<rparr>) =
     Inr ((loadedBoard [exampleTask 1 None])
            \<lparr>filterModel := FILTER_FAVORITES,
             apiCalls := [UpdateTaskCall (exampleTask 1 (Some 5))],
             taskPresenter := [], taskList := [], sortShown := None, noTaskShown := True\<rparr>)
   \<and> handleViewAction_settled exampleEnv UPDATE_TASK PATCH (exampleTask 1 (Some 5)) Rejected
       ((loadedBoard [exampleTask 1 None])
            \<lparr>filterModel := FILTER_FAVORITES,
             apiCalls := [UpdateTaskCall (exampleTask 1 (Some 5))],
             taskPresenter := [], taskList := [], sortShown := None, noTaskShown := True\<rparr>) =
     Inl (TypeError,
       (loadedBoard [exampleTask 1 None])
            \<lparr>filterModel := FILTER_FAVORITES,
             apiCalls := [UpdateTaskCall (exampleTask 1 (Some 5))],
             taskPresenter := [], taskList := [], sortShown := None, noTaskShown := True\<rparr>)"
proof -
  have fav: "isFavorite (exampleTask i due) = False" for i due
    by (simp add: exampleTask_def)
  have dispatch: "handleViewAction UPDATE_TASK PATCH (exampleTask 1 (Some 5))
      (loadedBoard [exampleTask 1 None]) =
     Inr ((loadedBoard [exampleTask 1 None])
            \<lparr>taskPresenter := [(1, \<lparr>serial = 0, boundTask = exampleTask 1 None,
                                     viewState = Some SAVING\<rparr>)],
             apiCalls := [UpdateTaskCall (exampleTask 1 (Some 5))]\<rparr>)"
    by (simp add: handleViewAction_def presenter_setViewState_at_def loadedBoard_single
        setViewState_def)
  have major: "handleModelEvent exampleEnv MAJOR (exampleTask 1 None)
       ((loadedBoard [exampleTask 1 None])
            \<lparr>taskPresenter := [(1, \<lparr>serial = 0, boundTask = exampleTask 1 None,
                                     viewState = Some SAVING\<rparr>)],
             apiCalls := [UpdateTaskCall (exampleTask 1 (Some 5))],
             filterModel := FILTER_FAVORITES\<rparr>) =
     Inr ((loadedBoard [exampleTask 1 None])
            \<lparr>filterModel := FILTER_FAVORITES,
             apiCalls := [UpdateTaskCall (exampleTask 1 (Some 5))],
             taskPresenter := [], taskList := [], sortShown := None, noTaskShown := True\<rparr>)"
    by (simp add: loadedBoard_single handleModelEvent_def clearBoard_def renderBoard_def
        getTasks_def exampleEnv_def spec_env_def spec_filter_def spec_filter_predicate_def
        TaskPresenter_destroy_def TASK_AMOUNT_PER_STEP_def Let_def fav)
  have rejected: "handleViewAction_settled exampleEnv UPDATE_TASK PATCH (exampleTask 1 (Some 5))
       Rejected
       ((loadedBoard [exampleTask 1 None])
            \<lparr>filterModel := FILTER_FAVORITES,
             apiCalls := [UpdateTaskCall (exampleTask 1 (Some 5))],
             taskPresenter := [], taskList := [], sortShown := None, noTaskShown := True\<rparr>) =
     Inl (TypeError,
       (loadedBoard [exampleTask 1 None])
            \<lparr>filterModel := FILTER_FAVORITES,
             apiCalls := [UpdateTaskCall (exampleTask 1 (Some 5))],
             taskPresenter := [], taskList := [], sortShown := None, noTaskShown := True\<rparr>)"
    by (simp add: handleViewAction_settled_def then_catch_def presenter_setViewState_at_def)
  from dispatch major rejected show ?thesis
    by (intro conjI)
qed

text \<open>
  C1, amended. An UPDATE action that was dispatched (\<open>b1\<close> is the board when
  \<open>_handleViewAction\<close> returns) has sent exactly one request, has marked the presenter of
  the task's id as saving and has not touched the collection; if its request rejects right
  then, that presenter is set to ABORTING. When the request rejects on any later board
  \<open>b'\<close>, the collection is left as it is and no request is sent (nothing is retried); if
  a presenter is registered for the id at that moment, the callback sets it to ABORTING and
  changes nothing else, and if none is registered, the callback throws a \<open>TypeError\<close> and
  the board is as it was.
\<close>

theorem C1_update_rejected:
  assumes dispatch: "handleViewAction UPDATE_TASK updateType update b = Inr b1"
  shows "tasksModel b1 = tasksModel b
    \<and> apiCalls b1 = apiCalls b @ [UpdateTaskCall update]
    \<and> (\<exists>p. map_of (taskPresenter b) (task_id update) = Some p
          \<and> map_of (taskPresenter b1) (task_id update) = Some (p\<lparr>viewState := Some SAVING\<rparr>)
          \<and> handleViewAction_settled env UPDATE_TASK updateType update Rejected b1 =
              Inr (b1\<lparr>taskPresenter :=
                        AList.update (task_id update) (p\<lparr>viewState := Some ABORTING\<rparr>)
                          (taskPresenter b1)\<rparr>))
    \<and> (map_of (taskPresenter b') (task_id update) = Some q \<longrightarrow>
          handleViewAction_settled env UPDATE_TASK updateType update Rejected b' =
            Inr (b'\<lparr>taskPresenter :=
                      AList.update (task_id update) (q\<lparr>viewState := Some ABORTING\<rparr>)
                        (taskPresenter b')\<rparr>))
    \<and> (map_of (taskPresenter b') (task_id update) = None \<longrightarrow>
          handleViewAction_settled env UPDATE_TASK updateType update Rejected b' =
            Inl (TypeError, b'))
    \<and> tasksModel (board_of (handleViewAction_settled env UPDATE_TASK updateType update
          Rejected b')) = tasksModel b'
    \<and> apiCalls (board_of (handleViewAction_settled env UPDATE_TASK updateType update
          Rejected b')) = apiCalls b'"
proof -
  from dispatch obtain p where p: "map_of (taskPresenter b) (task_id update) = Some p"
    by (cases "map_of (taskPresenter b) (task_id update)")
      (simp_all add: handleViewAction_def presenter_setViewState_at_def)
  with dispatch have b1: "b1 = b\<lparr>taskPresenter :=
      AList.update (task_id update) (setViewState SAVING p) (taskPresenter b),
      apiCalls := apiCalls b @ [UpdateTaskCall update]\<rparr>"
    by (auto simp add: handleViewAction_def setViewState_at_Some)
  have some: "map_of (taskPresenter c) (task_id update) = Some r \<Longrightarrow>
      handleViewAction_settled env UPDATE_TASK updateType update Rejected c =
        Inr (c\<lparr>taskPresenter :=
                  AList.update (task_id update) (r\<lparr>viewState := Some ABORTING\<rparr>)
                    (taskPresenter c)\<rparr>)" for c r
    by (simp add: handleViewAction_settled_def then_catch_def setViewState_at_Some
        setViewState_def)
  have none: "map_of (taskPresenter b') (task_id update) = None \<Longrightarrow>
      handleViewAction_settled env UPDATE_TASK updateType update Rejected b' =
        Inl (TypeError, b')"
    by (simp add: handleViewAction_settled_def then_catch_def setViewState_at_None)
  have reg1: "map_of (taskPresenter b1) (task_id update) = Some (p\<lparr>viewState := Some SAVING\<rparr>)"
    by (simp add: b1 update_conv' setViewState_def)
  have after: "handleViewAction_settled env UPDATE_TASK updateType update Rejected b1 =
      Inr (b1\<lparr>taskPresenter :=
                AList.update (task_id update) (p\<lparr>viewState := Some ABORTING\<rparr>)
                  (taskPresenter b1)\<rparr>)"
    using some [OF reg1] by simp
  have model: "tasksModel (board_of (handleViewAction_settled env UPDATE_TASK updateType update
          Rejected b')) = tasksModel b'"
    and calls: "apiCalls (board_of (handleViewAction_settled env UPDATE_TASK updateType update
          Rejected b')) = apiCalls b'"
    by (cases "map_of (taskPresenter b') (task_id update)";
        simp add: some none board_of_def)+
  have first: "tasksModel b1 = tasksModel b" "apiCalls b1 = apiCalls b @ [UpdateTaskCall update]"
    by (simp_all add: b1)
  show ?thesis
    using first p reg1 after some [of b' q] none model calls
    by (simp only: simp_thms) blast
qed

text \<open>
  The board of one loaded task: the task is edited and submitted. The request rejects right
  after the dispatch, where the presenter is registered; and it rejects on a board with an
  empty registry.
\<close>

theorem C1_update_rejected_witness:
  "handleViewAction UPDATE_TASK PATCH (exampleTask 1 (Some 5)) (loadedBoard [exampleTask 1 None]) =
     Inr ((loadedBoard [exampleTask 1 None])
            \<lparr>taskPresenter := [(1, \<lparr>serial = 0, boundTask = exampleTask 1 None,
                                     viewState = Some SAVING\<rparr>)],
             apiCalls := [UpdateTaskCall (exampleTask 1 (Some 5))]\<rparr>)
   \<and> handleViewAction_settled exampleEnv UPDATE_TASK PATCH (exampleTask 1 (Some 5)) Rejected
       ((loadedBoard [exampleTask 1 None])
            \<lparr>taskPresenter := [(1, \<lparr>serial = 0, boundTask = exampleTask 1 None,
                                     viewState = Some SAVING\<rparr>)],
             apiCalls := [UpdateTaskCall (exampleTask 1 (Some 5))]\<rparr>) =
     Inr ((loadedBoard [exampleTask 1 None])
            \<lparr>taskPresenter := [(1, \<lparr>serial = 0, boundTask = exampleTask 1 None,
                                     viewState = Some ABORTING\<rparr>)],
             apiCalls := [UpdateTaskCall (exampleTask 1 (Some 5))]\<rparr>)
   \<and> map_of (taskPresenter (readyBoard [exampleTask 1 None])) (task_id (exampleTask 1 (Some 5)))
       = None
   \<and> handleViewAction_settled exampleEnv UPDATE_TASK PATCH (exampleTask 1 (Some 5)) Rejected
       (readyBoard [exampleTask 1 None]) = Inl (TypeError, readyBoard [exampleTask 1 None])"
proof -
  let ?t = "exampleTask 1 (Some 5)"
  let ?b = "loadedBoard [exampleTask 1 None]"
  let ?q = "\<lparr>serial = 0, boundTask = exampleTask 1 None, viewState = Some SAVING\<rparr>"
  let ?b1 = "?b\<lparr>taskPresenter := [(1, ?q)], apiCalls := [UpdateTaskCall ?t]\<rparr>"
  have d: "handleViewAction UPDATE_TASK PATCH ?t ?b = Inr ?b1"
    by (simp add: handleViewAction_def presenter_setViewState_at_def loadedBoard_single
        setViewState_def)
  have r: "map_of (taskPresenter ?b1) (task_id ?t) = Some ?q"
    by simp
  have n: "map_of (taskPresenter (readyBoard [exampleTask 1 None])) (task_id ?t) = None"
    by (simp add: readyBoard_def Board_new_def)
  from C1_update_rejected [OF d, where b' = ?b1 and q = ?q and env = exampleEnv]
    C1_update_rejected [OF d, where b' = "readyBoard [exampleTask 1 None]" and q = ?q
      and env = exampleEnv] d r n
  show ?thesis
    by simp
qed

text \<open>
  C2, as stated, fails. On the board of one loaded task with id 1, a PATCH notification
  for id 2, an UPDATE action for id 2, and the rejection callback of an UPDATE for id 2 all
  throw a \<open>TypeError\<close>: none of them is a no-op that returns normally.
\<close>

theorem C2_counterexample:
  "map_of (taskPresenter (loadedBoard [exampleTask 1 None])) (task_id (exampleTask 2 None)) = None
   \<and> handleModelEvent exampleEnv PATCH (exampleTask 2 None) (loadedBoard [exampleTask 1 None])
       = Inl (TypeError, loadedBoard [exampleTask 1 None])
   \<and> handleViewAction UPDATE_TASK PATCH (exampleTask 2 None) (loadedBoard [exampleTask 1 None])
       = Inl (TypeError, loadedBoard [exampleTask 1 None])
   \<and> handleViewAction_settled exampleEnv UPDATE_TASK PATCH (exampleTask 2 None) Rejected
       (loadedBoard [exampleTask 1 None])
       = Inl (TypeError, loadedBoard [exampleTask 1 None])"
  by (simp add: loadedBoard_single exampleTask_def handleModelEvent_def presenter_init_at_def
      handleViewAction_def handleViewAction_settled_def then_catch_def
      presenter_setViewState_at_def)

text \<open>
  C2, amended. When no presenter is registered for the id, a PATCH notification, an UPDATE
  or DELETE action, and the rejection callback of an UPDATE or DELETE action throw a
  \<open>TypeError\<close>, and the board is as it was before: no view, registry entry, collection
  entry or request has changed. The MINOR, MAJOR and INIT notifications do not look a
  presenter up and re-render whatever the id is.
\<close>

theorem C2_unregistered_id:
  assumes "map_of (taskPresenter b) (task_id data) = None"
  shows "handleModelEvent env PATCH data b = Inl (TypeError, b)
    \<and> handleViewAction UPDATE_TASK updateType data b = Inl (TypeError, b)
    \<and> handleViewAction DELETE_TASK updateType data b = Inl (TypeError, b)
    \<and> handleViewAction_settled env UPDATE_TASK updateType data Rejected b = Inl (TypeError, b)
    \<and> handleViewAction_settled env DELETE_TASK updateType data Rejected b = Inl (TypeError, b)
    \<and> handleModelEvent env MINOR data b = Inr (renderBoard env (clearBoard env False False b))
    \<and> handleModelEvent env MAJOR data b = Inr (renderBoard env (clearBoard env True True b))
    \<and> handleModelEvent env INIT data b =
         Inr (renderBoard env (b\<lparr>isLoading := False, loadingShown := False\<rparr>))"
  using assms
  by (simp add: handleModelEvent_def presenter_init_at_def
      handleViewAction_def handleViewAction_settled_def then_catch_def
      presenter_setViewState_at_def)

theorem C2_unregistered_id_witness:
  "map_of (taskPresenter (loadedBoard [exampleTask 1 None])) (task_id (exampleTask 2 None)) = None
   \<and> handleViewAction DELETE_TASK MINOR (exampleTask 2 None) (loadedBoard [exampleTask 1 None])
       = Inl (TypeError, loadedBoard [exampleTask 1 None])"
proof -
  have h: "map_of (taskPresenter (loadedBoard [exampleTask 1 None])) (task_id (exampleTask 2 None)) = None"
    by (simp add: loadedBoard_single exampleTask_def)
  from C2_unregistered_id [OF h, of exampleEnv MINOR] h show ?thesis
    by simp
qed

section \<open>Facts about sorting and the visible sequence\<close>

lemma length_insort_cmp [simp]: "length (insort_cmp cmp x xs) = Suc (length xs)"
  by (induction xs) simp_all

lemma length_sort_cmp [simp]: "length (sort_cmp cmp xs) = length xs"
  by (induction xs) (simp_all add: sort_cmp_def)

lemma set_insort_cmp [simp]: "set (insort_cmp cmp x xs) = insert x (set xs)"
  by (induction xs) auto

lemma set_sort_cmp [simp]: "set (sort_cmp cmp xs) = set xs"
  by (induction xs) (simp_all add: sort_cmp_def)


lemma length_getTasks:
  "length (getTasks env b) = length (filterBy env (filterModel b) (tasksModel b))"
  by (simp add: getTasks_def Let_def split: SortType.splits)

section \<open>Facts about rendering\<close>

lemma renderTask_fields [simp]:
  "tasksModel (renderTask t b) = tasksModel b"
  "filterModel (renderTask t b) = filterModel b"
  "apiCalls (renderTask t b) = apiCalls b"
  "renderedTasksCount (renderTask t b) = renderedTasksCount b"
  "currentSortType (renderTask t b) = currentSortType b"
  "isLoading (renderTask t b) = isLoading b"
  "taskNewPresenter (renderTask t b) = taskNewPresenter b"
  "sortShown (renderTask t b) = sortShown b"
  "noTaskShown (renderTask t b) = noTaskShown b"
  "loadingShown (renderTask t b) = loadingShown b"
  "loadMoreButtonShown (renderTask t b) = loadMoreButtonShown b"
  "nextSerial (renderTask t b) = Suc (nextSerial b)"
  "taskList (renderTask t b) = taskList b @ [(nextSerial b, t)]"
  by (simp_all add: renderTask_def Let_def)

lemma renderTasks_Nil [simp]: "renderTasks [] b = b"
  by (simp add: renderTasks_def)

lemma renderTasks_Cons [simp]: "renderTasks (t # ts) b = renderTasks ts (renderTask t b)"
  by (simp add: renderTasks_def)

lemma renderTasks_append: "renderTasks (ts @ us) b = renderTasks us (renderTasks ts b)"
  by (simp add: renderTasks_def)

lemma renderTasks_fields [simp]:
  "tasksModel (renderTasks ts b) = tasksModel b"
  "filterModel (renderTasks ts b) = filterModel b"
  "apiCalls (renderTasks ts b) = apiCalls b"
  "renderedTasksCount (renderTasks ts b) = renderedTasksCount b"
  "currentSortType (renderTasks ts b) = currentSortType b"
  "isLoading (renderTasks ts b) = isLoading b"
  "taskNewPresenter (renderTasks ts b) = taskNewPresenter b"
  "sortShown (renderTasks ts b) = sortShown b"
  "noTaskShown (renderTasks ts b) = noTaskShown b"
  "loadingShown (renderTasks ts b) = loadingShown b"
  "loadMoreButtonShown (renderTasks ts b) = loadMoreButtonShown b"
  by (induction ts arbitrary: b; simp)+

lemma nextSerial_renderTasks [simp]:
  "nextSerial (renderTasks ts b) = nextSerial b + length ts"
  by (induction ts arbitrary: b) simp_all

lemma getTasks_renderTasks [simp]: "getTasks env (renderTasks ts b) = getTasks env b"
  by (simp add: getTasks_def)

lemma clearBoard_fields [simp]:
  "tasksModel (clearBoard env r s b) = tasksModel b"
  "filterModel (clearBoard env r s b) = filterModel b"
  "apiCalls (clearBoard env r s b) = apiCalls b"
  "isLoading (clearBoard env r s b) = isLoading b"
  "nextSerial (clearBoard env r s b) = nextSerial b"
  "taskNewPresenter (clearBoard env r s b) = NEW_CLOSED"
  "taskPresenter (clearBoard env r s b) = []"
  "sortShown (clearBoard env r s b) = None"
  "noTaskShown (clearBoard env r s b) = False"
  "loadingShown (clearBoard env r s b) = False"
  "loadMoreButtonShown (clearBoard env r s b) = False"
  "renderedTasksCount (clearBoard env r s b) =
     (if r then TASK_AMOUNT_PER_STEP else min (length (getTasks env b)) (renderedTasksCount b))"
  "currentSortType (clearBoard env r s b) = (if s then DEFAULT else currentSortType b)"
  by (simp_all add: clearBoard_def Let_def)

lemma renderBoard_fields [simp]:
  "tasksModel (renderBoard env b) = tasksModel b"
  "filterModel (renderBoard env b) = filterModel b"
  "apiCalls (renderBoard env b) = apiCalls b"
  "renderedTasksCount (renderBoard env b) = renderedTasksCount b"
  "currentSortType (renderBoard env b) = currentSortType b"
  "isLoading (renderBoard env b) = isLoading b"
  "taskNewPresenter (renderBoard env b) = taskNewPresenter b"
  "loadingShown (renderBoard env b) = (isLoading b \<or> loadingShown b)"
  by (simp_all add: renderBoard_def Let_def)

lemma getTasks_renderBoard [simp]: "getTasks env (renderBoard env' b) = getTasks env b"
  by (simp add: getTasks_def)

lemma length_getTasks_clearBoard [simp]:
  "length (getTasks env (clearBoard env' r s b)) = length (getTasks env b)"
  by (simp add: length_getTasks)

lemma handleLoadMoreButtonClick_fields [simp]:
  "tasksModel (handleLoadMoreButtonClick env b) = tasksModel b"
  "filterModel (handleLoadMoreButtonClick env b) = filterModel b"
  "apiCalls (handleLoadMoreButtonClick env b) = apiCalls b"
  "currentSortType (handleLoadMoreButtonClick env b) = currentSortType b"
  "isLoading (handleLoadMoreButtonClick env b) = isLoading b"
  "renderedTasksCount (handleLoadMoreButtonClick env b) =
     min (length (getTasks env b)) (renderedTasksCount b + TASK_AMOUNT_PER_STEP)"
  by (simp_all add: handleLoadMoreButtonClick_def Let_def)

section \<open>Model events\<close>



section \<open>The pagination cursor\<close>

text \<open>
  C4, as stated, fails: a MINOR event can decrease the cursor. On the board of one loaded
  task the cursor is 8, and after a MINOR event it is 1.
\<close>

theorem C4_counterexample:
  "renderedTasksCount (loadedBoard [exampleTask 1 None]) = 8
   \<and> handleModelEvent exampleEnv MINOR (exampleTask 1 None) (loadedBoard [exampleTask 1 None]) =
       Inr ((loadedBoard [exampleTask 1 None])
              \<lparr>renderedTasksCount := 1,
               taskPresenter := [(1, \<lparr>serial = 1, boundTask = exampleTask 1 None,
                                       viewState = None\<rparr>)],
               nextSerial := 2,
               taskList := [(1, exampleTask 1 None)]\<rparr>)"
  by (simp add: loadedBoard_single handleModelEvent_def clearBoard_def renderBoard_def
      getTasks_def exampleEnv_def spec_env_def spec_filter_def spec_filter_predicate_def
      slice_def renderTask_def TaskPresenter_destroy_def Let_def)

text \<open>
  C4, amended. A change to a different sort mode and a MAJOR event set the cursor to the
  page size; a change to the current sort mode changes nothing; the INIT event and a PATCH
  event leave the cursor as it is; a click on the load-more button sets it to the minimum
  of the size of the visible sequence and the cursor plus the page size, which increases it
  whenever the visible sequence is longer than the cursor; a MINOR event sets it to the
  minimum of the size of the visible sequence and the cursor, so it never increases it and
  decreases it exactly when the visible sequence is shorter than the cursor.
\<close>

theorem C4_cursor:
  "(currentSortType b \<noteq> sortType \<longrightarrow>
      renderedTasksCount (handleSortTypeChange env sortType b) = TASK_AMOUNT_PER_STEP)
   \<and> handleSortTypeChange env (currentSortType b) b = b
   \<and> (\<exists>b'. handleModelEvent env MAJOR data b = Inr b'
         \<and> renderedTasksCount b' = TASK_AMOUNT_PER_STEP)
   \<and> (\<exists>b'. handleModelEvent env INIT data b = Inr b'
         \<and> renderedTasksCount b' = renderedTasksCount b)
   \<and> renderedTasksCount (board_of (handleModelEvent env PATCH data b)) = renderedTasksCount b
   \<and> renderedTasksCount (handleLoadMoreButtonClick env b) =
       min (length (getTasks env b)) (renderedTasksCount b + TASK_AMOUNT_PER_STEP)
   \<and> (renderedTasksCount b < length (getTasks env b) \<longrightarrow>
         renderedTasksCount b < renderedTasksCount (handleLoadMoreButtonClick env b))
   \<and> (\<exists>b'. handleModelEvent env MINOR data b = Inr b'
         \<and> renderedTasksCount b' = min (length (getTasks env b)) (renderedTasksCount b)
         \<and> renderedTasksCount b' \<le> renderedTasksCount b
         \<and> (renderedTasksCount b' < renderedTasksCount b) =
             (length (getTasks env b) < renderedTasksCount b))"
proof -
  have sort: "currentSortType b \<noteq> sortType \<longrightarrow>
      renderedTasksCount (handleSortTypeChange env sortType b) = TASK_AMOUNT_PER_STEP"
    by (simp add: handleSortTypeChange_def)
  have same: "handleSortTypeChange env (currentSortType b) b = b"
    by (simp add: handleSortTypeChange_def)
  have major: "\<exists>b'. handleModelEvent env MAJOR data b = Inr b'
         \<and> renderedTasksCount b' = TASK_AMOUNT_PER_STEP"
    by (simp add: handleModelEvent_def)
  have init: "\<exists>b'. handleModelEvent env INIT data b = Inr b'
         \<and> renderedTasksCount b' = renderedTasksCount b"
    by (simp add: handleModelEvent_def)
  have patch: "renderedTasksCount (board_of (handleModelEvent env PATCH data b)) =
      renderedTasksCount b"
    by (simp add: handleModelEvent_def presenter_init_at_def board_of_def split: option.splits)
  have more: "renderedTasksCount (handleLoadMoreButtonClick env b) =
       min (length (getTasks env b)) (renderedTasksCount b + TASK_AMOUNT_PER_STEP)"
    by simp
  have grows: "renderedTasksCount b < length (getTasks env b) \<longrightarrow>
         renderedTasksCount b < renderedTasksCount (handleLoadMoreButtonClick env b)"
    by (simp add: TASK_AMOUNT_PER_STEP_def)
  have minor: "\<exists>b'. handleModelEvent env MINOR data b = Inr b'
         \<and> renderedTasksCount b' = min (length (getTasks env b)) (renderedTasksCount b)
         \<and> renderedTasksCount b' \<le> renderedTasksCount b
         \<and> (renderedTasksCount b' < renderedTasksCount b) =
             (length (getTasks env b) < renderedTasksCount b)"
    by (auto simp add: handleModelEvent_def)
  from sort same major init patch more grows minor show ?thesis
    by blast
qed

section \<open>The registry and the cards after rendering\<close>


lemma taskList_renderTasks:
  "taskList (renderTasks ts b) = taskList b @ enumerate (nextSerial b) ts"
  by (induction ts arbitrary: b) simp_all

lemma update_fresh: "k \<notin> fst ` set al \<Longrightarrow> AList.update k v al = al @ [(k, v)]"
  by (induction al) auto

lemma taskPresenter_renderTask:
  "task_id t \<notin> fst ` set (taskPresenter b) \<Longrightarrow>
     taskPresenter (renderTask t b) =
       taskPresenter b @ [(task_id t, \<lparr>serial = nextSerial b, boundTask = t, viewState = None\<rparr>)]"
  by (simp add: renderTask_def Let_def update_fresh)

lemma taskPresenter_renderTasks:
  "distinct (map fst (taskPresenter b) @ map task_id ts) \<Longrightarrow>
     taskPresenter (renderTasks ts b) = taskPresenter b @ newPresenters (nextSerial b) ts"
proof (induction ts arbitrary: b)
  case Nil
  then show ?case by (simp add: newPresenters_def)
next
  case (Cons t ts)
  from Cons.prems have fresh: "task_id t \<notin> fst ` set (taskPresenter b)"
    by auto
  from Cons.prems fresh
  have "distinct (map fst (taskPresenter (renderTask t b)) @ map task_id ts)"
    by (auto simp add: taskPresenter_renderTask)
  from Cons.IH [OF this] fresh show ?case
    by (simp add: taskPresenter_renderTask newPresenters_def)
qed

lemma map_fst_newPresenters [simp]: "map fst (newPresenters n ts) = map task_id ts"
  by (induction ts arbitrary: n) (simp_all add: newPresenters_def)

lemma length_newPresenters [simp]: "length (newPresenters n ts) = length ts"
  by (simp add: newPresenters_def)

lemma newPresenters_entry:
  "(k, p) \<in> set (newPresenters n ts) \<Longrightarrow>
     n \<le> serial p \<and> serial p < n + length ts \<and> boundTask p \<in> set ts
     \<and> task_id (boundTask p) = k \<and> viewState p = None
     \<and> boundTask p = ts ! (serial p - n)"
  by (auto simp add: newPresenters_def in_set_enumerate_eq)

lemma fold_destroy:
  "fold TaskPresenter_destroy ps cards = filter (\<lambda>card. fst card \<notin> serial ` set ps) cards"
proof (induction ps arbitrary: cards)
  case Nil
  then show ?case by simp
next
  case (Cons p ps)
  have "fold TaskPresenter_destroy (p # ps) cards =
      filter (\<lambda>card. fst card \<notin> serial ` set ps) (filter (\<lambda>card. fst card \<noteq> serial p) cards)"
    by (simp add: Cons.IH TaskPresenter_destroy_def del: filter_filter)
  also have "\<dots> = filter (\<lambda>card. fst card \<notin> serial ` set (p # ps)) cards"
    by (induction cards) auto
  finally show ?case .
qed

lemma taskList_clearBoard:
  "taskList (clearBoard env r s b) =
     filter (\<lambda>card. fst card \<notin> serial ` snd ` set (taskPresenter b)) (taskList b)"
  by (simp add: clearBoard_def Let_def fold_destroy image_image)

lemma slice_0 [simp]: "slice 0 n xs = take n xs"
  by (simp add: slice_def)

lemma renderBoard_loaded:
  "\<not> isLoading b \<Longrightarrow>
     renderBoard env b =
       (if length (getTasks env b) = 0 then b\<lparr>noTaskShown := True\<rparr>
        else (renderTasks (materialized env b) (b\<lparr>sortShown := Some (currentSortType b)\<rparr>))
               \<lparr>loadMoreButtonShown :=
                  (length (getTasks env b) > renderedTasksCount b \<or> loadMoreButtonShown b)\<rparr>)"
  by (simp add: renderBoard_def materialized_def Let_def getTasks_def)

lemma materialized_empty:
  "length (getTasks env b) = 0 \<Longrightarrow> materialized env b = []"
  by (simp add: materialized_def)

lemma taskPresenter_renderBoard:
  assumes "taskPresenter b = []" and "distinct (map task_id (getTasks env b))"
  shows "taskPresenter (renderBoard env b) = newPresenters (nextSerial b) (materialized env b)"
proof (cases "isLoading b")
  case True
  then show ?thesis
    using assms by (simp add: renderBoard_def materialized_def newPresenters_def)
next
  case False
  have d: "distinct (map task_id (materialized env b))"
    using assms(2) False distinct_take [of "map task_id (getTasks env b)"]
    by (simp add: materialized_def take_map)
  show ?thesis
  proof (cases "length (getTasks env b) = 0")
    case True
    with False assms show ?thesis
      by (simp add: renderBoard_loaded materialized_empty newPresenters_def)
  next
    case nonempty: False
    have "taskPresenter (renderTasks (materialized env b) (b\<lparr>sortShown := Some (currentSortType b)\<rparr>))
        = newPresenters (nextSerial b) (materialized env b)"
      using taskPresenter_renderTasks [of "b\<lparr>sortShown := Some (currentSortType b)\<rparr>"
          "materialized env b"] d assms(1)
      by simp
    with False nonempty show ?thesis
      by (simp add: renderBoard_loaded)
  qed
qed

lemma taskList_renderBoard:
  "taskList (renderBoard env b) = taskList b @ enumerate (nextSerial b) (materialized env b)"
proof (cases "isLoading b")
  case True
  then show ?thesis
    by (simp add: renderBoard_def materialized_def)
next
  case False
  then show ?thesis
    by (simp add: renderBoard_loaded materialized_empty taskList_renderTasks)
qed

lemma materialized_renderBoard [simp]:
  "materialized env (renderBoard env' b) = materialized env b"
  by (simp add: materialized_def)


lemma newPresenters_member:
  "t \<in> set ts \<Longrightarrow> \<exists>p. (task_id t, p) \<in> set (newPresenters n ts) \<and> boundTask p = t"
proof -
  assume "t \<in> set ts"
  then obtain i where i: "i < length ts" "ts ! i = t"
    by (auto simp add: in_set_conv_nth)
  then have "(n + i, t) \<in> set (enumerate n ts)"
    by (simp add: in_set_enumerate_eq)
  then have "(task_id t, \<lparr>serial = n + i, boundTask = t, viewState = None\<rparr>)
      \<in> set (newPresenters n ts)"
    by (force simp add: newPresenters_def)
  then show ?thesis
    by force
qed

lemma newPresenters_lookup:
  assumes "distinct (map task_id ts)" and "t \<in> set ts"
  shows "\<exists>p. map_of (newPresenters n ts) (task_id t) = Some p \<and> boundTask p = t"
proof -
  from newPresenters_member [OF assms(2), of n]
  obtain p where p: "(task_id t, p) \<in> set (newPresenters n ts)" "boundTask p = t"
    by blast
  have "distinct (map fst (newPresenters n ts))"
    using assms(1) by simp
  from map_of_is_SomeI [OF this p(1)] p(2) show ?thesis
    by blast
qed

lemma distinct_materialized:
  "distinct (map task_id (getTasks env b)) \<Longrightarrow> distinct (map task_id (materialized env b))"
  using distinct_take [of "map task_id (getTasks env b)"]
  by (simp add: materialized_def take_map)

text \<open>
  C10. \<open>_clearBoard\<close> closes the creation presenter, removes the card of every registered
  item presenter from the task list and empties the registry. After a full re-render
  (\<open>_clearBoard\<close>, then \<open>_renderBoard\<close>) of a visible sequence with unique ids, the
  registry holds exactly the presenters created by this render, one per materialized task
  and in their order, each under the id of the task it is bound to and in the normal state:
  its keys are the ids of the materialized tasks, every entry is a presenter created after
  the clear (its serial is not below the serial counter at the clear), and the cards added
  to the task list are those of the materialized tasks.
\<close>

theorem C10_clear_and_render:
  assumes ids: "distinct (map task_id (getTasks env (clearBoard env r s b)))"
  shows "taskPresenter (clearBoard env r s b) = []
    \<and> taskNewPresenter (clearBoard env r s b) = NEW_CLOSED
    \<and> (\<forall>p \<in> snd ` set (taskPresenter b).
          serial p \<notin> fst ` set (taskList (clearBoard env r s b)))
    \<and> (let b' = renderBoard env (clearBoard env r s b) in
          taskPresenter b' = newPresenters (nextSerial b) (materialized env b')
          \<and> map fst (taskPresenter b') = map task_id (materialized env b')
          \<and> length (taskPresenter b') = length (materialized env b')
          \<and> (\<forall>(k, p) \<in> set (taskPresenter b').
                task_id (boundTask p) = k \<and> boundTask p \<in> set (materialized env b')
                \<and> nextSerial b \<le> serial p \<and> viewState p = None)
          \<and> (\<forall>t \<in> set (materialized env b').
                \<exists>p. map_of (taskPresenter b') (task_id t) = Some p \<and> boundTask p = t)
          \<and> taskList b' =
               filter (\<lambda>card. fst card \<notin> serial ` snd ` set (taskPresenter b)) (taskList b)
               @ enumerate (nextSerial b) (materialized env b'))"
proof -
  let ?c = "clearBoard env r s b"
  let ?b' = "renderBoard env ?c"
  let ?w = "materialized env ?b'"
  have w: "?w = materialized env ?c"
    by simp
  have destroyed: "\<forall>p \<in> snd ` set (taskPresenter b). serial p \<notin> fst ` set (taskList ?c)"
    by (force simp add: taskList_clearBoard)
  have reg: "taskPresenter ?b' = newPresenters (nextSerial b) ?w"
    using taskPresenter_renderBoard [of ?c env] ids by simp
  have dw: "distinct (map task_id ?w)"
    using distinct_materialized [OF ids] by simp
  have entries: "\<forall>(k, p) \<in> set (taskPresenter ?b').
      task_id (boundTask p) = k \<and> boundTask p \<in> set ?w
      \<and> nextSerial b \<le> serial p \<and> viewState p = None"
    unfolding reg using newPresenters_entry [of _ _ "nextSerial b" ?w] by blast
  have lookup: "\<forall>t \<in> set ?w. \<exists>p. map_of (taskPresenter ?b') (task_id t) = Some p \<and> boundTask p = t"
    unfolding reg using newPresenters_lookup [OF dw] by blast
  have cards: "taskList ?b' =
      filter (\<lambda>card. fst card \<notin> serial ` snd ` set (taskPresenter b)) (taskList b)
      @ enumerate (nextSerial b) ?w"
    by (simp add: taskList_renderBoard taskList_clearBoard)
  have keys: "map fst (taskPresenter ?b') = map task_id ?w"
    by (simp only: reg map_fst_newPresenters)
  have len: "length (taskPresenter ?b') = length ?w"
    by (simp only: reg length_newPresenters)
  show ?thesis
    unfolding Let_def using destroyed reg keys len entries lookup cards
    by (simp only: clearBoard_fields simp_thms)
qed


section \<open>Load more\<close>

lemma getTasks_handleLoadMoreButtonClick [simp]:
  "getTasks env (handleLoadMoreButtonClick env' b) = getTasks env b"
  by (simp add: getTasks_def)

lemma taskList_handleLoadMoreButtonClick:
  "taskList (handleLoadMoreButtonClick env b) =
     taskList b @ enumerate (nextSerial b)
       (slice (renderedTasksCount b)
          (min (length (getTasks env b)) (renderedTasksCount b + TASK_AMOUNT_PER_STEP))
          (getTasks env b))"
  by (simp add: handleLoadMoreButtonClick_def Let_def taskList_renderTasks)

lemma loadMoreButtonShown_handleLoadMoreButtonClick:
  "loadMoreButtonShown (handleLoadMoreButtonClick env b) =
     (loadMoreButtonShown b \<and>
      min (length (getTasks env b)) (renderedTasksCount b + TASK_AMOUNT_PER_STEP)
        < length (getTasks env b))"
  by (auto simp add: handleLoadMoreButtonClick_def Let_def)

lemma map_snd_enumerate [simp]: "map snd (enumerate n xs) = xs"
  by (induction xs arbitrary: n) simp_all

lemma take_slice:
  "take c v @ slice c (min (length v) (c + p)) v = take (min (length v) (c + p)) v"
proof (cases "c \<le> length v")
  case True
  then have "min (length v) (c + p) = c + (min (length v) (c + p) - c)"
    by simp
  then have "take (min (length v) (c + p)) v
      = take c v @ take (min (length v) (c + p) - c) (drop c v)"
    using take_add [of c "min (length v) (c + p) - c" v] by simp
  then show ?thesis
    by (simp add: slice_def)
next
  case False
  then show ?thesis
    by (simp add: slice_def)
qed

lemma loadMoreButtonShown_renderBoard:
  "\<not> isLoading b \<Longrightarrow>
     loadMoreButtonShown (renderBoard env b) =
       (loadMoreButtonShown b \<or> renderedTasksCount b < length (getTasks env b))"
  by (auto simp add: renderBoard_loaded)

lemma take_min_length: "take (min (length xs) c) xs = take c xs"
  by (simp add: min_def)

lemma paged_renderBoard:
  assumes "\<not> isLoading b" and "taskList b = []" and "loadMoreButtonShown b = False"
  shows "paged env (renderBoard env b)"
  using assms
  by (simp add: paged_def taskList_renderBoard materialized_def
      loadMoreButtonShown_renderBoard take_min_length)

lemma paged_handleLoadMoreButtonClick:
  assumes "paged env b"
  shows "paged env (handleLoadMoreButtonClick env b)"
proof -
  let ?v = "getTasks env b"
  let ?c = "renderedTasksCount b"
  let ?c' = "min (length ?v) (?c + TASK_AMOUNT_PER_STEP)"
  have "map snd (taskList (handleLoadMoreButtonClick env b)) = take ?c ?v @ slice ?c ?c' ?v"
    using assms by (simp add: taskList_handleLoadMoreButtonClick paged_def)
  then have cards: "map snd (taskList (handleLoadMoreButtonClick env b)) = take ?c' ?v"
    by (simp only: take_slice)
  have button: "loadMoreButtonShown (handleLoadMoreButtonClick env b) = (?c' < length ?v)"
    using assms
    by (auto simp add: loadMoreButtonShown_handleLoadMoreButtonClick paged_def)
  from cards button show ?thesis
    by (simp add: paged_def)
qed

lemma paged_funpow:
  "paged env b \<Longrightarrow> paged env ((handleLoadMoreButtonClick env ^^ k) b)"
  by (induction k) (simp_all add: paged_handleLoadMoreButtonClick)

lemma getTasks_funpow [simp]:
  "getTasks env ((handleLoadMoreButtonClick env ^^ k) b) = getTasks env b"
  by (induction k) simp_all

lemma cursor_funpow:
  "min (length (getTasks env b))
     (renderedTasksCount ((handleLoadMoreButtonClick env ^^ k) b))
   = min (length (getTasks env b)) (renderedTasksCount b + TASK_AMOUNT_PER_STEP * k)"
  by (induction k) (auto simp add: TASK_AMOUNT_PER_STEP_def)

text \<open>
  A cleared board: when every card of the task list belongs to a registered presenter,
  \<open>_clearBoard\<close> leaves no card and no load-more button.
\<close>

lemma cleared_clearBoard:
  assumes "fst ` set (taskList b) \<subseteq> serial ` snd ` set (taskPresenter b)"
  shows "taskList (clearBoard env r s b) = []"
    and "loadMoreButtonShown (clearBoard env r s b) = False"
    and "isLoading (clearBoard env r s b) = isLoading b"
proof -
  have "\<forall>card \<in> set (taskList b). fst card \<in> serial ` snd ` set (taskPresenter b)"
    using assms by blast
  then show "taskList (clearBoard env r s b) = []"
    by (simp add: taskList_clearBoard filter_empty_conv)
  show "loadMoreButtonShown (clearBoard env r s b) = False"
    and "isLoading (clearBoard env r s b) = isLoading b"
    by simp_all
qed

text \<open>
  C3, amended. The page size is 8. Let a cleared board whose cursor is \<open>c\<close> be rendered and
  the load-more button then be clicked \<open>k\<close> times, on a visible sequence of \<open>n\<close> tasks.
  The cards of the task list then show the first \<open>min n (c + 8 * k)\<close> tasks of the visible
  sequence, in its order, so their number is \<open>min n (c + 8 * k)\<close>; the load-more button is
  there exactly when that number is less than \<open>n\<close>; and one more click adds the cards of
  the newly revealed slice of the visible sequence and nothing else. When the cursor is at
  the page size (\<open>c = 8\<close>), the number of cards is \<open>min n (8 * (k + 1))\<close>.
\<close>

theorem C3_pagination:
  assumes loaded: "\<not> isLoading b"
    and cleared: "taskList b = []" "loadMoreButtonShown b = False"
  shows "(let n = length (getTasks env b);
              c = renderedTasksCount b;
              bk = (handleLoadMoreButtonClick env ^^ k) (renderBoard env b)
          in TASK_AMOUNT_PER_STEP = 8
             \<and> map snd (taskList bk) = take (min n (c + 8 * k)) (getTasks env b)
             \<and> length (taskList bk) = min n (c + 8 * k)
             \<and> loadMoreButtonShown bk = (length (taskList bk) < n)
             \<and> taskList (handleLoadMoreButtonClick env bk) =
                 taskList bk @ enumerate (nextSerial bk)
                   (slice (renderedTasksCount bk) (min n (renderedTasksCount bk + 8))
                      (getTasks env b))
             \<and> map snd (taskList (handleLoadMoreButtonClick env bk)) =
                 map snd (taskList bk)
                 @ slice (min n (c + 8 * k)) (min n (c + 8 * (k + 1))) (getTasks env b)
             \<and> (c = 8 \<longrightarrow>
                  map snd (taskList bk) = take (min n (8 * (k + 1))) (getTasks env b)
                  \<and> length (taskList bk) = min n (8 * (k + 1))))"
proof -
  let ?v = "getTasks env b"
  let ?n = "length ?v"
  let ?c = "renderedTasksCount b"
  let ?b0 = "renderBoard env b"
  let ?bk = "(handleLoadMoreButtonClick env ^^ k) ?b0"
  let ?bk' = "(handleLoadMoreButtonClick env ^^ Suc k) ?b0"
  have v: "getTasks env ?bk = ?v"
    by simp
  have p: "paged env ?bk"
    using paged_funpow [OF paged_renderBoard [OF loaded cleared]] .
  have p': "paged env ?bk'"
    using paged_funpow [OF paged_renderBoard [OF loaded cleared]] .
  have c: "min ?n (renderedTasksCount ?bk) = min ?n (?c + 8 * k)"
    using cursor_funpow [of env ?b0 k] by (simp add: TASK_AMOUNT_PER_STEP_def)
  have c': "min ?n (renderedTasksCount ?bk') = min ?n (?c + 8 * (k + 1))"
    using cursor_funpow [of env ?b0 "Suc k"] by (simp add: TASK_AMOUNT_PER_STEP_def)
  have cards: "map snd (taskList ?bk) = take (min ?n (?c + 8 * k)) ?v"
  proof -
    have "map snd (taskList ?bk) = take (renderedTasksCount ?bk) ?v"
      using p v by (simp add: paged_def)
    also have "\<dots> = take (min ?n (renderedTasksCount ?bk)) ?v"
      by (simp add: min_def)
    finally show ?thesis
      by (simp only: c)
  qed
  have cards': "map snd (taskList ?bk') = take (min ?n (?c + 8 * (k + 1))) ?v"
  proof -
    have "map snd (taskList ?bk') = take (renderedTasksCount ?bk') ?v"
      using p' by (simp add: paged_def del: funpow.simps)
    also have "\<dots> = take (min ?n (renderedTasksCount ?bk')) ?v"
      by (simp add: min_def)
    finally show ?thesis
      by (simp only: c')
  qed
  have len: "length (taskList ?bk) = min ?n (?c + 8 * k)"
  proof -
    have "length (taskList ?bk) = length (map snd (taskList ?bk))"
      by simp
    also have "\<dots> = min ?n (?c + 8 * k)"
      by (simp only: cards) simp
    finally show ?thesis .
  qed
  have button: "loadMoreButtonShown ?bk = (length (taskList ?bk) < ?n)"
  proof -
    have "loadMoreButtonShown ?bk = (renderedTasksCount ?bk < ?n)"
      using p v by (simp add: paged_def)
    also have "\<dots> = (min ?n (renderedTasksCount ?bk) < ?n)"
      by (auto simp add: min_def)
    finally show ?thesis
      by (simp only: c len)
  qed
  have step: "taskList (handleLoadMoreButtonClick env ?bk) =
      taskList ?bk @ enumerate (nextSerial ?bk)
        (slice (renderedTasksCount ?bk) (min ?n (renderedTasksCount ?bk + 8)) ?v)"
    using taskList_handleLoadMoreButtonClick [of env ?bk]
    by (simp add: TASK_AMOUNT_PER_STEP_def)
  have slice: "map snd (taskList (handleLoadMoreButtonClick env ?bk)) =
      map snd (taskList ?bk) @ slice (min ?n (?c + 8 * k)) (min ?n (?c + 8 * (k + 1))) ?v"
  proof -
    have "take (min ?n (?c + 8 * k)) ?v
        @ slice (min ?n (?c + 8 * k)) (min ?n (?c + 8 * (k + 1))) ?v
        = take (min ?n (?c + 8 * (k + 1))) ?v"
      by (simp add: slice_def min_def take_add [symmetric] del: take_add)
    with cards cards' show ?thesis
      by simp
  qed
  have reset: "?c = 8 \<longrightarrow>
      map snd (taskList ?bk) = take (min ?n (8 * (k + 1))) ?v
      \<and> length (taskList ?bk) = min ?n (8 * (k + 1))"
    using cards len by simp
  show ?thesis
    unfolding Let_def using cards len button step slice reset
    by (simp only: TASK_AMOUNT_PER_STEP_def simp_thms)
qed

section \<open>The claims on example boards\<close>


lemma length_exampleTasks [simp]: "length (exampleTasks n) = n"
  by (simp add: exampleTasks_def)

lemma readyBoard_fields [simp]:
  "tasksModel (readyBoard ts) = ts"
  "filterModel (readyBoard ts) = FILTER_ALL"
  "apiCalls (readyBoard ts) = []"
  "renderedTasksCount (readyBoard ts) = TASK_AMOUNT_PER_STEP"
  "currentSortType (readyBoard ts) = DEFAULT"
  "taskPresenter (readyBoard ts) = []"
  "isLoading (readyBoard ts) = False"
  "nextSerial (readyBoard ts) = 0"
  "taskList (readyBoard ts) = []"
  "loadMoreButtonShown (readyBoard ts) = False"
  by (simp_all add: readyBoard_def Board_new_def)

lemma getTasks_exampleEnv:
  "filterModel b = FILTER_ALL \<Longrightarrow> currentSortType b = DEFAULT \<Longrightarrow>
     getTasks exampleEnv b = tasksModel b"
  by (simp add: getTasks_def exampleEnv_def spec_env_def spec_filter_def
      spec_filter_predicate_def)

lemma length_getTasks_exampleEnv:
  "filterModel b = FILTER_ALL \<Longrightarrow> length (getTasks exampleEnv b) = length (tasksModel b)"
  by (simp add: length_getTasks exampleEnv_def spec_env_def spec_filter_def
      spec_filter_predicate_def)

lemma loadedBoard_fields [simp]:
  "tasksModel (loadedBoard ts) = ts"
  "filterModel (loadedBoard ts) = FILTER_ALL"
  "renderedTasksCount (loadedBoard ts) = TASK_AMOUNT_PER_STEP"
  "currentSortType (loadedBoard ts) = DEFAULT"
  "isLoading (loadedBoard ts) = False"
  by (simp_all add: loadedBoard_def)

lemma exampleTask_flags [simp]:
  "isFavorite (exampleTask i due) = False" "isArchive (exampleTask i due) = False"
  by (simp_all add: exampleTask_def)

text \<open>
  C3, as stated, fails. The only task of a loaded board is deleted and a task is added,
  each confirmed by the service and notified as MINOR. The board then has one visible task,
  no card and the load-more button, before any click: the number of materialized tasks is 0,
  not \<open>min 1 8\<close>.
\<close>

theorem C3_counterexample:
  "handleViewAction DELETE_TASK MINOR (exampleTask 1 None) (loadedBoard [exampleTask 1 None]) =
     Inr ((loadedBoard [exampleTask 1 None])
            \<lparr>taskPresenter := [(1, \<lparr>serial = 0, boundTask = exampleTask 1 None,
                                     viewState = Some DELETING\<rparr>)],
             apiCalls := [DeleteTaskCall (exampleTask 1 None)]\<rparr>)
   \<and> handleViewAction_settled exampleEnv DELETE_TASK MINOR (exampleTask 1 None)
       (Resolved (exampleTask 1 None))
       ((loadedBoard [exampleTask 1 None])
            \<lparr>taskPresenter := [(1, \<lparr>serial = 0, boundTask = exampleTask 1 None,
                                     viewState = Some DELETING\<rparr>)],
             apiCalls := [DeleteTaskCall (exampleTask 1 None)]\<rparr>) =
     Inr ((readyBoard [])
            \<lparr>apiCalls := [DeleteTaskCall (exampleTask 1 None)],
             renderedTasksCount := 0, nextSerial := 1, noTaskShown := True\<rparr>)
   \<and> handleViewAction ADD_TASK MINOR (exampleTask 2 None)
       ((readyBoard [])
            \<lparr>apiCalls := [DeleteTaskCall (exampleTask 1 None)],
             renderedTasksCount := 0, nextSerial := 1, noTaskShown := True\<rparr>) =
     Inr ((readyBoard [])
            \<lparr>apiCalls := [DeleteTaskCall (exampleTask 1 None), AddTaskCall (exampleTask 2 None)],
             renderedTasksCount := 0, nextSerial := 1, noTaskShown := True,
             taskNewPresenter := NEW_SAVING\<rparr>)
   \<and> handleViewAction_settled exampleEnv ADD_TASK MINOR (exampleTask 2 None)
       (Resolved (exampleTask 2 None))
       ((readyBoard [])
            \<lparr>apiCalls := [DeleteTaskCall (exampleTask 1 None), AddTaskCall (exampleTask 2 None)],
             renderedTasksCount := 0, nextSerial := 1, noTaskShown := True,
             taskNewPresenter := NEW_SAVING\<rparr>) =
     Inr ((readyBoard [exampleTask 2 None])
            \<lparr>apiCalls := [DeleteTaskCall (exampleTask 1 None), AddTaskCall (exampleTask 2 None)],
             renderedTasksCount := 0, nextSerial := 1, sortShown := Some DEFAULT,
             loadMoreButtonShown := True\<rparr>)
   \<and> getTasks exampleEnv
       ((readyBoard [exampleTask 2 None])
            \<lparr>apiCalls := [DeleteTaskCall (exampleTask 1 None), AddTaskCall (exampleTask 2 None)],
             renderedTasksCount := 0, nextSerial := 1, sortShown := Some DEFAULT,
             loadMoreButtonShown := True\<rparr>) = [exampleTask 2 None]
   \<and> taskList
       ((readyBoard [exampleTask 2 None])
            \<lparr>apiCalls := [DeleteTaskCall (exampleTask 1 None), AddTaskCall (exampleTask 2 None)],
             renderedTasksCount := 0, nextSerial := 1, sortShown := Some DEFAULT,
             loadMoreButtonShown := True\<rparr>) = []"
proof -
  note defs = handleViewAction_def handleViewAction_settled_def then_catch_def
    presenter_setViewState_at_def setViewState_def TasksModel_deleteTask_def
    TasksModel_addTask_def handleModelEvent_def clearBoard_def renderBoard_def getTasks_def
    exampleEnv_def spec_env_def spec_filter_def spec_filter_predicate_def
    TaskPresenter_destroy_def readyBoard_def Board_new_def slice_def Let_def
    TASK_AMOUNT_PER_STEP_def
  have s1: "handleViewAction DELETE_TASK MINOR (exampleTask 1 None) (loadedBoard [exampleTask 1 None]) =
     Inr ((loadedBoard [exampleTask 1 None])
            \<lparr>taskPresenter := [(1, \<lparr>serial = 0, boundTask = exampleTask 1 None,
                                     viewState = Some DELETING\<rparr>)],
             apiCalls := [DeleteTaskCall (exampleTask 1 None)]\<rparr>)"
    by (simp add: loadedBoard_single defs)
  have s2: "handleViewAction_settled exampleEnv DELETE_TASK MINOR (exampleTask 1 None)
       (Resolved (exampleTask 1 None))
       ((loadedBoard [exampleTask 1 None])
            \<lparr>taskPresenter := [(1, \<lparr>serial = 0, boundTask = exampleTask 1 None,
                                     viewState = Some DELETING\<rparr>)],
             apiCalls := [DeleteTaskCall (exampleTask 1 None)]\<rparr>) =
     Inr ((readyBoard [])
            \<lparr>apiCalls := [DeleteTaskCall (exampleTask 1 None)],
             renderedTasksCount := 0, nextSerial := 1, noTaskShown := True\<rparr>)"
    by (simp add: loadedBoard_single defs)
  have s3: "handleViewAction ADD_TASK MINOR (exampleTask 2 None)
       ((readyBoard [])
            \<lparr>apiCalls := [DeleteTaskCall (exampleTask 1 None)],
             renderedTasksCount := 0, nextSerial := 1, noTaskShown := True\<rparr>) =
     Inr ((readyBoard [])
            \<lparr>apiCalls := [DeleteTaskCall (exampleTask 1 None), AddTaskCall (exampleTask 2 None)],
             renderedTasksCount := 0, nextSerial := 1, noTaskShown := True,
             taskNewPresenter := NEW_SAVING\<rparr>)"
    by (simp add: defs)
  have s4: "handleViewAction_settled exampleEnv ADD_TASK MINOR (exampleTask 2 None)
       (Resolved (exampleTask 2 None))
       ((readyBoard [])
            \<lparr>apiCalls := [DeleteTaskCall (exampleTask 1 None), AddTaskCall (exampleTask 2 None)],
             renderedTasksCount := 0, nextSerial := 1, noTaskShown := True,
             taskNewPresenter := NEW_SAVING\<rparr>) =
     Inr ((readyBoard [exampleTask 2 None])
            \<lparr>apiCalls := [DeleteTaskCall (exampleTask 1 None), AddTaskCall (exampleTask 2 None)],
             renderedTasksCount := 0, nextSerial := 1, sortShown := Some DEFAULT,
             loadMoreButtonShown := True\<rparr>)"
    by (simp add: defs)
  have s5: "getTasks exampleEnv
       ((readyBoard [exampleTask 2 None])
            \<lparr>apiCalls := [DeleteTaskCall (exampleTask 1 None), AddTaskCall (exampleTask 2 None)],
             renderedTasksCount := 0, nextSerial := 1, sortShown := Some DEFAULT,
             loadMoreButtonShown := True\<rparr>) = [exampleTask 2 None]"
    by (simp add: getTasks_exampleEnv)
  have s6: "taskList
       ((readyBoard [exampleTask 2 None])
            \<lparr>apiCalls := [DeleteTaskCall (exampleTask 1 None), AddTaskCall (exampleTask 2 None)],
             renderedTasksCount := 0, nextSerial := 1, sortShown := Some DEFAULT,
             loadMoreButtonShown := True\<rparr>) = []"
    by simp
  from s1 s2 s3 s4 s5 s6 show ?thesis
    by (intro conjI)
qed

text \<open>
  Ten visible tasks and the cursor at 8: the first render shows 8 cards and the button, one
  click shows all 10 and removes the button.
\<close>

theorem C3_pagination_witness:
  "\<not> isLoading (readyBoard (exampleTasks 10))
   \<and> renderedTasksCount (readyBoard (exampleTasks 10)) = 8
   \<and> taskList (readyBoard (exampleTasks 10)) = []
   \<and> loadMoreButtonShown (readyBoard (exampleTasks 10)) = False
   \<and> length (getTasks exampleEnv (readyBoard (exampleTasks 10))) = 10
   \<and> length (taskList (renderBoard exampleEnv (readyBoard (exampleTasks 10)))) = 8
   \<and> loadMoreButtonShown (renderBoard exampleEnv (readyBoard (exampleTasks 10))) = True
   \<and> length (taskList (handleLoadMoreButtonClick exampleEnv
         (renderBoard exampleEnv (readyBoard (exampleTasks 10))))) = 10
   \<and> loadMoreButtonShown (handleLoadMoreButtonClick exampleEnv
         (renderBoard exampleEnv (readyBoard (exampleTasks 10)))) = False"
proof -
  let ?b = "readyBoard (exampleTasks 10)"
  have h: "\<not> isLoading ?b" "taskList ?b = []" "loadMoreButtonShown ?b = False"
    by simp_all
  have c: "renderedTasksCount ?b = 8"
    by (simp add: TASK_AMOUNT_PER_STEP_def)
  have n: "length (getTasks exampleEnv ?b) = 10"
    by (simp add: length_getTasks_exampleEnv)
  from C3_pagination [OF h, of exampleEnv 0] C3_pagination [OF h, of exampleEnv "Suc 0"] h c n
  show ?thesis
    by (simp add: Let_def)
qed

text \<open>
  Seventeen visible tasks after one click: the cursor is 16, a change of the sort mode sets
  it to 8 and another click sets it to 17.
\<close>

theorem C4_cursor_witness:
  "renderedTasksCount (handleLoadMoreButtonClick exampleEnv (loadedBoard (exampleTasks 17))) = 16
   \<and> currentSortType (handleLoadMoreButtonClick exampleEnv (loadedBoard (exampleTasks 17)))
        \<noteq> DATE_UP
   \<and> renderedTasksCount (handleSortTypeChange exampleEnv DATE_UP
        (handleLoadMoreButtonClick exampleEnv (loadedBoard (exampleTasks 17)))) = 8
   \<and> length (getTasks exampleEnv
        (handleLoadMoreButtonClick exampleEnv (loadedBoard (exampleTasks 17)))) = 17
   \<and> renderedTasksCount (handleLoadMoreButtonClick exampleEnv
        (handleLoadMoreButtonClick exampleEnv (loadedBoard (exampleTasks 17)))) = 17"
proof -
  let ?b = "handleLoadMoreButtonClick exampleEnv (loadedBoard (exampleTasks 17))"
  have n: "length (getTasks exampleEnv ?b) = 17"
    by (simp add: length_getTasks_exampleEnv)
  have c: "renderedTasksCount ?b = 16"
    by (simp add: length_getTasks_exampleEnv TASK_AMOUNT_PER_STEP_def)
  have s: "currentSortType ?b \<noteq> DATE_UP"
    by simp
  from C4_cursor [of ?b DATE_UP exampleEnv] n c s show ?thesis
    by (simp add: TASK_AMOUNT_PER_STEP_def)
qed


lemma nextSerial_renderBoard:
  "nextSerial (renderBoard env b) = nextSerial b + length (materialized env b)"
proof (cases "isLoading b")
  case True
  then show ?thesis
    by (simp add: renderBoard_def materialized_def)
next
  case False
  then show ?thesis
    by (simp add: renderBoard_loaded materialized_empty)
qed

lemma loadedBoard_two:
  assumes "task_id t1 \<noteq> task_id t2"
  shows "taskPresenter (loadedBoard [t1, t2]) =
     [(task_id t1, \<lparr>serial = 0, boundTask = t1, viewState = None\<rparr>),
      (task_id t2, \<lparr>serial = Suc 0, boundTask = t2, viewState = None\<rparr>)]"
    and "taskList (loadedBoard [t1, t2]) = [(0, t1), (Suc 0, t2)]"
    and "nextSerial (loadedBoard [t1, t2]) = Suc (Suc 0)"
  using assms
  by (simp_all add: loadedBoard_def taskPresenter_renderBoard taskList_renderBoard
      nextSerial_renderBoard materialized_def getTasks_exampleEnv newPresenters_def
      TASK_AMOUNT_PER_STEP_def)

text \<open>
  A MINOR re-render of a loaded board of two tasks: the presenters 0 and 1 are replaced by
  the presenters 2 and 3, and the cards with them.
\<close>

theorem C10_clear_and_render_witness:
  "distinct (map task_id (getTasks exampleEnv (clearBoard exampleEnv False False
       (loadedBoard [exampleTask 1 None, exampleTask 2 (Some 5)]))))
   \<and> taskPresenter (loadedBoard [exampleTask 1 None, exampleTask 2 (Some 5)]) =
       [(1, \<lparr>serial = 0, boundTask = exampleTask 1 None, viewState = None\<rparr>),
        (2, \<lparr>serial = 1, boundTask = exampleTask 2 (Some 5), viewState = None\<rparr>)]
   \<and> taskPresenter (clearBoard exampleEnv False False
        (loadedBoard [exampleTask 1 None, exampleTask 2 (Some 5)])) = []
   \<and> taskPresenter (renderBoard exampleEnv (clearBoard exampleEnv False False
        (loadedBoard [exampleTask 1 None, exampleTask 2 (Some 5)]))) =
       [(1, \<lparr>serial = 2, boundTask = exampleTask 1 None, viewState = None\<rparr>),
        (2, \<lparr>serial = 3, boundTask = exampleTask 2 (Some 5), viewState = None\<rparr>)]
   \<and> taskList (renderBoard exampleEnv (clearBoard exampleEnv False False
        (loadedBoard [exampleTask 1 None, exampleTask 2 (Some 5)]))) =
       [(2, exampleTask 1 None), (3, exampleTask 2 (Some 5))]"
proof -
  let ?b = "loadedBoard [exampleTask 1 None, exampleTask 2 (Some 5)]"
  let ?c = "clearBoard exampleEnv False False ?b"
  have v: "getTasks exampleEnv ?c = [exampleTask 1 None, exampleTask 2 (Some 5)]"
    by (simp add: getTasks_exampleEnv)
  have ids: "distinct (map task_id (getTasks exampleEnv ?c))"
    by (simp only: v) simp
  have m: "materialized exampleEnv ?c = [exampleTask 1 None, exampleTask 2 (Some 5)]"
    by (simp add: materialized_def getTasks_exampleEnv TASK_AMOUNT_PER_STEP_def)
  from C10_clear_and_render [OF ids] ids m show ?thesis
    by (simp add: Let_def loadedBoard_two newPresenters_def)
qed

section \<open>The comparators of the specification\<close>

lemma spec_sortTasksUp_simps [simp]:
  "dueDate a = None \<Longrightarrow> dueDate b = None \<Longrightarrow> spec_sortTasksUp pol a b = 0"
  "dueDate a = None \<Longrightarrow> dueDate b = Some y \<Longrightarrow>
     spec_sortTasksUp pol a b = (if pol then 1 else - 1)"
  "dueDate a = Some x \<Longrightarrow> dueDate b = None \<Longrightarrow>
     spec_sortTasksUp pol a b = (if pol then - 1 else 1)"
  "dueDate a = Some x \<Longrightarrow> dueDate b = Some y \<Longrightarrow> spec_sortTasksUp pol a b = x - y"
  by (simp_all add: spec_sortTasksUp_def weightForNullDate_def)

lemma spec_sortTasksDown_simps [simp]:
  "dueDate a = None \<Longrightarrow> dueDate b = None \<Longrightarrow> spec_sortTasksDown pol a b = 0"
  "dueDate a = None \<Longrightarrow> dueDate b = Some y \<Longrightarrow>
     spec_sortTasksDown pol a b = (if pol then 1 else - 1)"
  "dueDate a = Some x \<Longrightarrow> dueDate b = None \<Longrightarrow>
     spec_sortTasksDown pol a b = (if pol then - 1 else 1)"
  "dueDate a = Some x \<Longrightarrow> dueDate b = Some y \<Longrightarrow> spec_sortTasksDown pol a b = y - x"
  by (simp_all add: spec_sortTasksDown_def weightForNullDate_def)

text \<open>Sorting a list whose elements all have a date is sorting by a key.\<close>

lemma insort_cmp_key:
  assumes "\<And>y. y \<in> set ys \<Longrightarrow> (cmp x y \<le> 0) = (f x \<le> f y)"
  shows "insort_cmp cmp x ys = insort_key f x ys"
  using assms by (induction ys) simp_all

lemma sort_cmp_key:
  assumes "\<And>x y. x \<in> set xs \<Longrightarrow> y \<in> set xs \<Longrightarrow> (cmp x y \<le> 0) = (f x \<le> f y)"
  shows "sort_cmp cmp xs = sort_key f xs"
  using assms
proof (induction xs)
  case Nil
  then show ?case by (simp add: sort_cmp_def)
next
  case (Cons x xs)
  have IH: "sort_cmp cmp xs = sort_key f xs"
    using Cons by simp
  have "insort_cmp cmp x (sort_key f xs) = insort_key f x (sort_key f xs)"
    using Cons.prems by (intro insort_cmp_key) simp
  then show ?case
    using IH by (simp add: sort_cmp_def)
qed

lemma sort_cmp_Cons: "sort_cmp cmp (x # xs) = insort_cmp cmp x (sort_cmp cmp xs)"
  by (simp add: sort_cmp_def)

lemma sort_cmp_Nil [simp]: "sort_cmp cmp [] = []"
  by (simp add: sort_cmp_def)

text \<open>Insertion into a list of two blocks.\<close>

lemma insort_cmp_skip:
  "\<forall>y \<in> set ys. cmp x y > 0 \<Longrightarrow> insort_cmp cmp x (ys @ zs) = ys @ insort_cmp cmp x zs"
  by (induction ys) simp_all

lemma insort_cmp_front:
  "\<forall>z \<in> set zs. cmp x z \<le> 0 \<Longrightarrow> insort_cmp cmp x zs = x # zs"
  by (cases zs) simp_all

lemma insort_cmp_stop:
  "\<forall>z \<in> set zs. cmp x z \<le> 0 \<Longrightarrow> insort_cmp cmp x (ys @ zs) = insort_cmp cmp x ys @ zs"
  by (induction ys) (simp_all add: insort_cmp_front)

text \<open>The shape of a sorted sequence: the dated tasks, sorted, and the undated ones.\<close>

lemma sort_cmp_absent_last:
  assumes up: "\<And>a b. dueDate a = None \<Longrightarrow> dueDate b = None \<Longrightarrow> cmp a b = 0"
    and "\<And>a b. dueDate a = None \<Longrightarrow> dueDate b \<noteq> None \<Longrightarrow> cmp a b > 0"
    and "\<And>a b. dueDate a \<noteq> None \<Longrightarrow> dueDate b = None \<Longrightarrow> cmp a b < 0"
  shows "sort_cmp cmp xs =
     sort_cmp cmp (filter (\<lambda>t. dueDate t \<noteq> None) xs) @ filter (\<lambda>t. dueDate t = None) xs"
proof (induction xs)
  case Nil
  then show ?case by simp
next
  case (Cons x xs)
  let ?D = "sort_cmp cmp (filter (\<lambda>t. dueDate t \<noteq> None) xs)"
  let ?A = "filter (\<lambda>t. dueDate t = None) xs"
  have D: "\<forall>y \<in> set ?D. dueDate y \<noteq> None" and A: "\<forall>z \<in> set ?A. dueDate z = None"
    by simp_all
  show ?case
  proof (cases "dueDate x = None")
    case True
    have "insort_cmp cmp x (?D @ ?A) = ?D @ insort_cmp cmp x ?A"
      using D assms(2) [OF True] by (intro insort_cmp_skip) blast
    also have "insort_cmp cmp x ?A = x # ?A"
      using A assms(1) [OF True] by (intro insort_cmp_front) simp
    finally show ?thesis
      using True Cons.IH by (simp add: sort_cmp_Cons)
  next
    case False
    have "insort_cmp cmp x (?D @ ?A) = insort_cmp cmp x ?D @ ?A"
      using A assms(3) [OF False] by (intro insort_cmp_stop) (simp add: less_imp_le)
    then show ?thesis
      using False Cons.IH by (simp add: sort_cmp_Cons)
  qed
qed

lemma sort_cmp_absent_first:
  assumes "\<And>a b. dueDate a = None \<Longrightarrow> dueDate b = None \<Longrightarrow> cmp a b = 0"
    and "\<And>a b. dueDate a = None \<Longrightarrow> dueDate b \<noteq> None \<Longrightarrow> cmp a b < 0"
    and "\<And>a b. dueDate a \<noteq> None \<Longrightarrow> dueDate b = None \<Longrightarrow> cmp a b > 0"
  shows "sort_cmp cmp xs =
     filter (\<lambda>t. dueDate t = None) xs @ sort_cmp cmp (filter (\<lambda>t. dueDate t \<noteq> None) xs)"
proof (induction xs)
  case Nil
  then show ?case by simp
next
  case (Cons x xs)
  let ?D = "sort_cmp cmp (filter (\<lambda>t. dueDate t \<noteq> None) xs)"
  let ?A = "filter (\<lambda>t. dueDate t = None) xs"
  have D: "\<forall>y \<in> set ?D. dueDate y \<noteq> None" and A: "\<forall>z \<in> set ?A. dueDate z = None"
    by simp_all
  show ?case
  proof (cases "dueDate x = None")
    case True
    have "\<forall>z \<in> set (?A @ ?D). cmp x z \<le> 0"
      using assms(1) [OF True] assms(2) [OF True] by (auto simp add: less_imp_le)
    then have "insort_cmp cmp x (?A @ ?D) = x # ?A @ ?D"
      by (rule insort_cmp_front)
    then show ?thesis
      using True Cons.IH by (simp add: sort_cmp_Cons)
  next
    case False
    have "insort_cmp cmp x (?A @ ?D) = ?A @ insort_cmp cmp x ?D"
      using A assms(3) [OF False] by (intro insort_cmp_skip) simp
    then show ?thesis
      using False Cons.IH by (simp add: sort_cmp_Cons)
  qed
qed


lemma spec_sortTasksUp_dated:
  "dueDate a \<noteq> None \<Longrightarrow> dueDate b \<noteq> None \<Longrightarrow>
     spec_sortTasksUp pol a b = dueTime a - dueTime b"
  by (auto simp add: dueTime_def)

lemma spec_sortTasksDown_dated:
  "dueDate a \<noteq> None \<Longrightarrow> dueDate b \<noteq> None \<Longrightarrow>
     spec_sortTasksDown pol a b = dueTime b - dueTime a"
  by (auto simp add: dueTime_def)

lemma sort_up_dated:
  "\<forall>t \<in> set xs. dueDate t \<noteq> None \<Longrightarrow>
     sort_cmp (spec_sortTasksUp pol) xs = sort_key dueTime xs"
  by (rule sort_cmp_key) (simp add: spec_sortTasksUp_dated)

lemma sort_down_dated:
  "\<forall>t \<in> set xs. dueDate t \<noteq> None \<Longrightarrow>
     sort_cmp (spec_sortTasksDown pol) xs = sort_key (\<lambda>t. - dueTime t) xs"
  by (rule sort_cmp_key) (simp add: spec_sortTasksDown_dated)

lemma sort_key_neg_rev:
  fixes f :: "'a \<Rightarrow> int"
  assumes "distinct (map f xs)"
  shows "sort_key (\<lambda>t. - f t) xs = rev (sort_key f xs)"
proof -
  let ?u = "sort_key f xs" and ?d = "sort_key (\<lambda>t. - f t) xs"
  have inj: "inj_on f (set xs)" and dxs: "distinct xs"
    using assms by (simp_all add: distinct_map)
  have su: "sorted (map f ?u)" and sd: "sorted (map (\<lambda>t. - f t) ?d)"
    by simp_all
  have "sorted (rev (map uminus (map (\<lambda>t. - f t) ?d)))"
  proof -
    have "sorted_wrt (\<lambda>a b. a \<ge> b) (map uminus (map (\<lambda>t. - f t) ?d))"
      using sd by (simp add: sorted_wrt_map)
    then show ?thesis
      by (simp add: sorted_wrt_rev)
  qed
  then have srd: "sorted (map f (rev ?d))"
    by (simp add: rev_map comp_def)
  have du: "distinct (map f ?u)" and dd: "distinct (map f (rev ?d))"
    using inj dxs by (simp_all add: distinct_map)
  have "set (map f ?u) = set (map f (rev ?d))"
    by simp
  with su srd du dd have "map f ?u = map f (rev ?d)"
    by (intro sorted_distinct_set_unique)
  moreover have "set ?u \<union> set (rev ?d) \<subseteq> set xs"
    by simp
  ultimately have "?u = rev ?d"
    using inj by (metis inj_on_map_eq_map inj_on_subset)
  then show ?thesis
    by simp
qed

text \<open>A comparator that is total and transitive: sorting sorts, and is idempotent.\<close>

lemma sorted_insort_cmp:
  assumes total: "\<And>a b. cmp a b \<le> 0 \<or> cmp b a \<le> 0"
    and trans: "\<And>a b c. cmp a b \<le> 0 \<Longrightarrow> cmp b c \<le> 0 \<Longrightarrow> cmp a c \<le> 0"
  shows "sorted_wrt (\<lambda>a b. cmp a b \<le> 0) xs \<Longrightarrow>
     sorted_wrt (\<lambda>a b. cmp a b \<le> 0) (insort_cmp cmp x xs)"
proof (induction xs)
  case Nil
  then show ?case by simp
next
  case (Cons y ys)
  show ?case
  proof (cases "cmp x y \<le> 0")
    case True
    with Cons.prems trans show ?thesis
      by auto
  next
    case False
    with total have "cmp y x \<le> 0"
      by blast
    with False Cons show ?thesis
      by auto
  qed
qed

lemma sorted_sort_cmp:
  assumes "\<And>a b. cmp a b \<le> 0 \<or> cmp b a \<le> 0"
    and "\<And>a b c. cmp a b \<le> 0 \<Longrightarrow> cmp b c \<le> 0 \<Longrightarrow> cmp a c \<le> 0"
  shows "sorted_wrt (\<lambda>a b. cmp a b \<le> 0) (sort_cmp cmp xs)"
  by (induction xs) (simp_all add: sort_cmp_Cons sorted_insort_cmp [OF assms])


lemma spec_sortTasksUp_total:
  "spec_sortTasksUp pol a b \<le> 0 \<or> spec_sortTasksUp pol b a \<le> 0"
  by (cases "dueDate a"; cases "dueDate b") auto

lemma spec_sortTasksUp_trans:
  "spec_sortTasksUp pol a b \<le> 0 \<Longrightarrow> spec_sortTasksUp pol b c \<le> 0 \<Longrightarrow>
     spec_sortTasksUp pol a c \<le> 0"
  by (cases "dueDate a"; cases "dueDate b"; cases "dueDate c") (auto split: if_splits)

lemma spec_sortTasksDown_total:
  "spec_sortTasksDown pol a b \<le> 0 \<or> spec_sortTasksDown pol b a \<le> 0"
  by (cases "dueDate a"; cases "dueDate b") auto

lemma spec_sortTasksDown_trans:
  "spec_sortTasksDown pol a b \<le> 0 \<Longrightarrow> spec_sortTasksDown pol b c \<le> 0 \<Longrightarrow>
     spec_sortTasksDown pol a c \<le> 0"
  by (cases "dueDate a"; cases "dueDate b"; cases "dueDate c") (auto split: if_splits)

lemma sort_up_shape:
  "sort_cmp (spec_sortTasksUp pol) xs =
     (if pol
      then sort_key dueTime (filter (\<lambda>t. dueDate t \<noteq> None) xs) @ filter (\<lambda>t. dueDate t = None) xs
      else filter (\<lambda>t. dueDate t = None) xs @ sort_key dueTime (filter (\<lambda>t. dueDate t \<noteq> None) xs))"
proof (cases pol)
  case True
  have "sort_cmp (spec_sortTasksUp True) xs =
      sort_cmp (spec_sortTasksUp True) (filter (\<lambda>t. dueDate t \<noteq> None) xs)
      @ filter (\<lambda>t. dueDate t = None) xs"
    by (rule sort_cmp_absent_last) auto
  with True show ?thesis
    by (simp add: sort_up_dated)
next
  case False
  have "sort_cmp (spec_sortTasksUp False) xs =
      filter (\<lambda>t. dueDate t = None) xs
      @ sort_cmp (spec_sortTasksUp False) (filter (\<lambda>t. dueDate t \<noteq> None) xs)"
    by (rule sort_cmp_absent_first) auto
  with False show ?thesis
    by (simp add: sort_up_dated)
qed

lemma sort_down_shape:
  "sort_cmp (spec_sortTasksDown pol) xs =
     (if pol
      then sort_key (\<lambda>t. - dueTime t) (filter (\<lambda>t. dueDate t \<noteq> None) xs)
           @ filter (\<lambda>t. dueDate t = None) xs
      else filter (\<lambda>t. dueDate t = None) xs
           @ sort_key (\<lambda>t. - dueTime t) (filter (\<lambda>t. dueDate t \<noteq> None) xs))"
proof (cases pol)
  case True
  have "sort_cmp (spec_sortTasksDown True) xs =
      sort_cmp (spec_sortTasksDown True) (filter (\<lambda>t. dueDate t \<noteq> None) xs)
      @ filter (\<lambda>t. dueDate t = None) xs"
    by (rule sort_cmp_absent_last) auto
  with True show ?thesis
    by (simp add: sort_down_dated)
next
  case False
  have "sort_cmp (spec_sortTasksDown False) xs =
      filter (\<lambda>t. dueDate t = None) xs
      @ sort_cmp (spec_sortTasksDown False) (filter (\<lambda>t. dueDate t \<noteq> None) xs)"
    by (rule sort_cmp_absent_first) auto
  with False show ?thesis
    by (simp add: sort_down_dated)
qed


lemma dueDate_exampleTask [simp]: "dueDate (exampleTask i due) = due"
  by (simp add: exampleTask_def)

lemma getTasks_spec_up:
  "getTasks (spec_env pol clk) (b\<lparr>currentSortType := DATE_UP\<rparr>) =
     sort_cmp (spec_sortTasksUp pol) (spec_filter clk (filterModel b) (tasksModel b))"
  by (simp add: getTasks_def spec_env_def)

lemma getTasks_spec_down:
  "getTasks (spec_env pol clk) (b\<lparr>currentSortType := DATE_DOWN\<rparr>) =
     sort_cmp (spec_sortTasksDown pol) (spec_filter clk (filterModel b) (tasksModel b))"
  by (simp add: getTasks_def spec_env_def)

lemma getTasks_spec_default:
  "getTasks (spec_env pol clk) (b\<lparr>currentSortType := DEFAULT\<rparr>) =
     spec_filter clk (filterModel b) (tasksModel b)"
  by (simp add: getTasks_def spec_env_def)

lemma datedTasks_spec:
  "datedTasks (spec_env pol clk) b =
     filter (\<lambda>t. dueDate t \<noteq> None) (spec_filter clk (filterModel b) (tasksModel b))"
  "undatedTasks (spec_env pol clk) b =
     filter (\<lambda>t. dueDate t = None) (spec_filter clk (filterModel b) (tasksModel b))"
  by (simp_all add: datedTasks_def undatedTasks_def spec_env_def)

text \<open>
  C6. For two tasks that both have due dates the descending comparator is the ascending
  one reversed. When one of the two tasks has no due date the two comparators agree, so a
  task with no due date has the same position in both directions: in either date mode the
  visible sequence is the dated tasks sorted by their due dates, ascending or descending,
  followed (absent dates last) or preceded (absent dates first) by the undated tasks in
  their filtered order; when the due dates are distinct the descending order of the dated
  tasks is the reverse of the ascending one. The visible sequence is ordered by the
  comparator of its mode. For the collection of task 1 with no due date and task 2 due
  tomorrow, under the filter "all" and ascending dates, the visible order is 2, 1 when absent
  dates sort last and 1, 2 when they sort first.
\<close>

theorem C6_sorting:
  "(dueDate x \<noteq> None \<and> dueDate y \<noteq> None \<longrightarrow>
      spec_sortTasksDown pol x y = spec_sortTasksUp pol y x
      \<and> spec_sortTasksDown pol x y = - spec_sortTasksUp pol x y)
   \<and> (dueDate x = None \<or> dueDate y = None \<longrightarrow>
        spec_sortTasksDown pol x y = spec_sortTasksUp pol x y)
   \<and> getTasks (spec_env pol clk) (b\<lparr>currentSortType := DATE_UP\<rparr>) =
       (if pol
        then sort_key dueTime (datedTasks (spec_env pol clk) b) @ undatedTasks (spec_env pol clk) b
        else undatedTasks (spec_env pol clk) b @ sort_key dueTime (datedTasks (spec_env pol clk) b))
   \<and> getTasks (spec_env pol clk) (b\<lparr>currentSortType := DATE_DOWN\<rparr>) =
       (if pol
        then sort_key (\<lambda>t. - dueTime t) (datedTasks (spec_env pol clk) b)
             @ undatedTasks (spec_env pol clk) b
        else undatedTasks (spec_env pol clk) b
             @ sort_key (\<lambda>t. - dueTime t) (datedTasks (spec_env pol clk) b))
   \<and> (distinct (map dueTime (datedTasks (spec_env pol clk) b)) \<longrightarrow>
        sort_key (\<lambda>t. - dueTime t) (datedTasks (spec_env pol clk) b) =
          rev (sort_key dueTime (datedTasks (spec_env pol clk) b)))
   \<and> sorted_wrt (\<lambda>t u. spec_sortTasksUp pol t u \<le> 0)
        (getTasks (spec_env pol clk) (b\<lparr>currentSortType := DATE_UP\<rparr>))
   \<and> sorted_wrt (\<lambda>t u. spec_sortTasksDown pol t u \<le> 0)
        (getTasks (spec_env pol clk) (b\<lparr>currentSortType := DATE_DOWN\<rparr>))
   \<and> getTasks (spec_env pol clk)
        ((readyBoard [exampleTask 1 None, exampleTask 2 (Some tomorrow)])
           \<lparr>currentSortType := DATE_UP\<rparr>) =
       (if pol then [exampleTask 2 (Some tomorrow), exampleTask 1 None]
        else [exampleTask 1 None, exampleTask 2 (Some tomorrow)])"
proof -
  have reversed: "dueDate x \<noteq> None \<and> dueDate y \<noteq> None \<longrightarrow>
      spec_sortTasksDown pol x y = spec_sortTasksUp pol y x
      \<and> spec_sortTasksDown pol x y = - spec_sortTasksUp pol x y"
    by (simp add: spec_sortTasksUp_dated spec_sortTasksDown_dated)
  have fixed: "dueDate x = None \<or> dueDate y = None \<longrightarrow>
        spec_sortTasksDown pol x y = spec_sortTasksUp pol x y"
    by (cases "dueDate x"; cases "dueDate y") simp_all
  have up: "getTasks (spec_env pol clk) (b\<lparr>currentSortType := DATE_UP\<rparr>) =
       (if pol
        then sort_key dueTime (datedTasks (spec_env pol clk) b) @ undatedTasks (spec_env pol clk) b
        else undatedTasks (spec_env pol clk) b @ sort_key dueTime (datedTasks (spec_env pol clk) b))"
    by (simp only: getTasks_spec_up datedTasks_spec sort_up_shape)
  have down: "getTasks (spec_env pol clk) (b\<lparr>currentSortType := DATE_DOWN\<rparr>) =
       (if pol
        then sort_key (\<lambda>t. - dueTime t) (datedTasks (spec_env pol clk) b)
             @ undatedTasks (spec_env pol clk) b
        else undatedTasks (spec_env pol clk) b
             @ sort_key (\<lambda>t. - dueTime t) (datedTasks (spec_env pol clk) b))"
    by (simp only: getTasks_spec_down datedTasks_spec sort_down_shape)
  have rev: "distinct (map dueTime (datedTasks (spec_env pol clk) b)) \<longrightarrow>
        sort_key (\<lambda>t. - dueTime t) (datedTasks (spec_env pol clk) b) =
          rev (sort_key dueTime (datedTasks (spec_env pol clk) b))"
    using sort_key_neg_rev [of dueTime "datedTasks (spec_env pol clk) b"] by blast
  have sorted_up: "sorted_wrt (\<lambda>t u. spec_sortTasksUp pol t u \<le> 0)
        (getTasks (spec_env pol clk) (b\<lparr>currentSortType := DATE_UP\<rparr>))"
    unfolding getTasks_spec_up
    by (rule sorted_sort_cmp [OF spec_sortTasksUp_total spec_sortTasksUp_trans])
  have sorted_down: "sorted_wrt (\<lambda>t u. spec_sortTasksDown pol t u \<le> 0)
        (getTasks (spec_env pol clk) (b\<lparr>currentSortType := DATE_DOWN\<rparr>))"
    unfolding getTasks_spec_down
    by (rule sorted_sort_cmp [OF spec_sortTasksDown_total spec_sortTasksDown_trans])
  have scenario: "getTasks (spec_env pol clk)
        ((readyBoard [exampleTask 1 None, exampleTask 2 (Some tomorrow)])
           \<lparr>currentSortType := DATE_UP\<rparr>) =
       (if pol then [exampleTask 2 (Some tomorrow), exampleTask 1 None]
        else [exampleTask 1 None, exampleTask 2 (Some tomorrow)])"
    unfolding getTasks_spec_up
    by (simp add: spec_filter_def spec_filter_predicate_def sort_cmp_Cons)
  from reversed fixed up down rev sorted_up sorted_down scenario show ?thesis
    by blast
qed


text \<open>
  Task 1 due at 9, task 2 with no due date, task 3 due at 5, absent dates last: ascending
  gives 3, 1, 2 and descending gives 1, 3, 2.
\<close>

theorem C6_sorting_witness:
  "dueDate (exampleTask 1 (Some 9)) \<noteq> None \<and> dueDate (exampleTask 3 (Some 5)) \<noteq> None
   \<and> spec_sortTasksDown True (exampleTask 1 (Some 9)) (exampleTask 3 (Some 5)) =
       spec_sortTasksUp True (exampleTask 3 (Some 5)) (exampleTask 1 (Some 9))
   \<and> dueDate (exampleTask 2 None) = None
   \<and> spec_sortTasksDown True (exampleTask 2 None) (exampleTask 3 (Some 5)) =
       spec_sortTasksUp True (exampleTask 2 None) (exampleTask 3 (Some 5))
   \<and> distinct (map dueTime (datedTasks (spec_env True exampleClock)
         (readyBoard [exampleTask 1 (Some 9), exampleTask 2 None, exampleTask 3 (Some 5)])))
   \<and> getTasks (spec_env True exampleClock)
        ((readyBoard [exampleTask 1 (Some 9), exampleTask 2 None, exampleTask 3 (Some 5)])
           \<lparr>currentSortType := DATE_UP\<rparr>) =
       [exampleTask 3 (Some 5), exampleTask 1 (Some 9), exampleTask 2 None]
   \<and> getTasks (spec_env True exampleClock)
        ((readyBoard [exampleTask 1 (Some 9), exampleTask 2 None, exampleTask 3 (Some 5)])
           \<lparr>currentSortType := DATE_DOWN\<rparr>) =
       [exampleTask 1 (Some 9), exampleTask 3 (Some 5), exampleTask 2 None]"
proof -
  let ?b = "readyBoard [exampleTask 1 (Some 9), exampleTask 2 None, exampleTask 3 (Some 5)]"
  have dated: "datedTasks (spec_env True exampleClock) ?b =
      [exampleTask 1 (Some 9), exampleTask 3 (Some 5)]"
    and undated: "undatedTasks (spec_env True exampleClock) ?b = [exampleTask 2 None]"
    by (simp_all add: datedTasks_spec spec_filter_def spec_filter_predicate_def)
  have times: "dueTime (exampleTask 1 (Some 9)) = 9" "dueTime (exampleTask 3 (Some 5)) = 5"
    by (simp_all add: dueTime_def)
  have d: "distinct (map dueTime (datedTasks (spec_env True exampleClock) ?b))"
    by (simp only: dated) (simp add: dueTime_def)
  from C6_sorting [of "exampleTask 1 (Some 9)" "exampleTask 3 (Some 5)" True exampleClock ?b 0]
    C6_sorting [of "exampleTask 2 None" "exampleTask 3 (Some 5)" True exampleClock ?b 0]
    d dated undated times
  show ?thesis
    by simp
qed

section \<open>The pipeline has no state\<close>









text \<open>
  Both conditions matter. When the filter hands back the array of the model, a computation
  in a date mode reorders the collection; and a pass that goes on after midnight agrees
  with neither moment.
\<close>

lemma getTasks_inPlace_same_array:
  "getTasks_inPlace exampleEnv (\<lambda>f. True)
     ((readyBoard [exampleTask 1 (Some 9), exampleTask 3 (Some 5)])
        \<lparr>currentSortType := DATE_UP\<rparr>) =
     ([exampleTask 3 (Some 5), exampleTask 1 (Some 9)],
      (readyBoard [exampleTask 3 (Some 5), exampleTask 1 (Some 9)])
        \<lparr>currentSortType := DATE_UP\<rparr>)"
  by (simp add: getTasks_inPlace_def exampleEnv_def spec_env_def sort_cmp_Cons readyBoard_def
      Board_new_def Let_def)

lemma spec_filter_run_midnight:
  "spec_filter_run midnightClocks 0 FILTER_TODAY
     [exampleTask 1 (Some 86399999), exampleTask 2 (Some 86399999)] =
     [exampleTask 1 (Some 86399999)]"
  "spec_filter (midnightClocks 0) FILTER_TODAY
     [exampleTask 1 (Some 86399999), exampleTask 2 (Some 86399999)] =
     [exampleTask 1 (Some 86399999), exampleTask 2 (Some 86399999)]"
  "spec_filter (midnightClocks 1) FILTER_TODAY
     [exampleTask 1 (Some 86399999), exampleTask 2 (Some 86399999)] = []"
  by (simp_all add: spec_filter_def spec_filter_predicate_def isTaskExpiringToday_def
      number_eq_def getCurrentDate_eq midnightClocks_def LocalTime_def UTC_def Day_def
      MakeDate_def TimeClip_def msPerDay_def)




section \<open>The model-event handler\<close>








end
